theory Spec2Isabelle
  imports Complex_Main
begin

section \<open>Headline clustering (clustering.py)\<close>

text \<open>
  Python exceptions are values. Only the kind of the exception is kept.
\<close>

datatype error =
    ValueError | TypeError | IndexError | KeyError | AttributeError
  | UnpicklingError | EOFError | OSError | ApiError | EmptyDataError

subsection \<open>The KMeans estimator\<close>

text \<open>
  \<^verbatim>\<open>KMeans(n_clusters=n_clusters, random_state=42, n_init=10)\<close> is an object of
  scikit-learn. Its constructor parameters and its fitted attribute
  \<^verbatim>\<open>cluster_centers_\<close> (absent before the first fit) are the fields of the record.
  Vectors are values of a type \<open>'v\<close>.
\<close>

record 'v kmeans =
  km_n_clusters :: nat
  random_state :: "nat option"
  n_init :: nat
  cluster_centers :: "'v list option"

text \<open>
  The fitting algorithm itself is library code and is a parameter: from the seed,
  \<^verbatim>\<open>n_init\<close>, the number of groups and the data it gives the labels (one per row) and
  the centres, or raises.
\<close>

type_synonym 'v kmeans_alg = "nat \<Rightarrow> nat \<Rightarrow> nat \<Rightarrow> 'v list \<Rightarrow> error + (nat list \<times> 'v list)"

text \<open>
  \<^verbatim>\<open>kmeans.fit_predict(X)\<close>. With an integer \<^verbatim>\<open>random_state\<close> the estimator seeds
  a private generator from it at every fit; with \<^verbatim>\<open>None\<close> it draws from the global
  generator of the process, whose state is the argument \<open>g\<close>. A fit that raises during
  validation leaves the estimator as it was.
\<close>

definition fit_predict ::
  "'v kmeans_alg \<Rightarrow> nat \<Rightarrow> 'v kmeans \<Rightarrow> 'v list \<Rightarrow> error + (nat list \<times> 'v kmeans)" where
  "fit_predict alg g km X =
     (case alg (case random_state km of Some s \<Rightarrow> s | None \<Rightarrow> g) (n_init km) (km_n_clusters km) X of
        Inl e \<Rightarrow> Inl e
      | Inr (labels, centers) \<Rightarrow> Inr (labels, km\<lparr>cluster_centers := Some centers\<rparr>))"

text \<open>
  What the theorems below need of the library: a fit on no rows, or on fewer rows than
  groups, raises \<^verbatim>\<open>ValueError\<close>; a fit on at least \<open>k > 0\<close> rows gives one label below
  \<open>k\<close> for each row and \<open>k\<close> centres.
\<close>

definition sklearn_contract :: "'v kmeans_alg \<Rightarrow> bool" where
  "sklearn_contract alg \<longleftrightarrow>
     (\<forall>seed ni k X.
        (X = [] \<or> length X < k \<longrightarrow> alg seed ni k X = Inl ValueError) \<and>
        (0 < k \<and> k \<le> length X \<longrightarrow>
           (\<exists>labels centers. alg seed ni k X = Inr (labels, centers) \<and>
              length labels = length X \<and> (\<forall>l \<in> set labels. l < k) \<and> length centers = k)))"

subsection \<open>HeadlineClusterer\<close>

text \<open>
  The instance state. \<open>embedding_model\<close> is the sentence encoder loaded by
  \<^verbatim>\<open>__init__\<close>, kept as the name it was loaded from; the encoder itself is the
  parameter \<open>enc\<close> of the operations (encoder name, texts, vectors).
\<close>

record 'v clusterer =
  model_name :: string
  n_clusters :: nat
  embedding_model :: string
  kmeans :: "'v kmeans"
  embeddings :: "'v list option"
  cluster_labels :: "nat list option"

definition init :: "string \<Rightarrow> nat \<Rightarrow> 'v clusterer" where
  "init mn k =
     \<lparr>model_name = mn, n_clusters = k, embedding_model = mn,
      kmeans = \<lparr>km_n_clusters = k, random_state = Some 42, n_init = 10, cluster_centers = None\<rparr>,
      embeddings = None, cluster_labels = None\<rparr>"

definition create_embeddings ::
  "(string \<Rightarrow> string list \<Rightarrow> 'v list) \<Rightarrow> 'v clusterer \<Rightarrow> string list \<Rightarrow> 'v list \<times> 'v clusterer" where
  "create_embeddings enc st hs =
     (let E = enc (embedding_model st) hs in (E, st\<lparr>embeddings := Some E\<rparr>))"

text \<open>One entry of \<^verbatim>\<open>cluster_results\<close>.\<close>

record item =
  headline :: string
  cluster_id :: nat
  embedding_index :: nat

text \<open>
  The loop that builds \<^verbatim>\<open>cluster_results\<close> from
  \<^verbatim>\<open>enumerate(zip(headlines, self.cluster_labels))\<close>; \<^verbatim>\<open>zip\<close> stops at the shorter
  of the two.
\<close>

definition pair_results :: "string list \<Rightarrow> nat list \<Rightarrow> item list" where
  "pair_results hs labels =
     map (\<lambda>(i, h, l). \<lparr>headline = h, cluster_id = l, embedding_index = i\<rparr>)
       (enumerate 0 (zip hs labels))"

text \<open>
  \<^verbatim>\<open>cluster_headlines\<close>. The result is paired with the state the call leaves behind,
  also when it raises: the embeddings are stored before the fit.
\<close>

definition cluster_headlines ::
  "(string \<Rightarrow> string list \<Rightarrow> 'v list) \<Rightarrow> 'v kmeans_alg \<Rightarrow> nat \<Rightarrow> 'v clusterer \<Rightarrow> string list
     \<Rightarrow> (error + item list) \<times> 'v clusterer" where
  "cluster_headlines enc alg g st hs =
     (case (case embeddings st of None \<Rightarrow> create_embeddings enc st hs | Some E \<Rightarrow> (E, st)) of
        (E, st1) \<Rightarrow>
          (case fit_predict alg g (kmeans st1) E of
             Inl e \<Rightarrow> (Inl e, st1)
           | Inr (labels, km) \<Rightarrow>
               (Inr (pair_results hs labels), st1\<lparr>kmeans := km, cluster_labels := Some labels\<rparr>)))"

text \<open>
  \<^verbatim>\<open>np.argmin\<close>: the index of the first occurrence of the least entry, found in one
  scan; on an empty array it raises.
\<close>

fun argmin_scan :: "nat \<Rightarrow> 'd::linorder \<Rightarrow> nat \<Rightarrow> 'd list \<Rightarrow> nat" where
  "argmin_scan b m i [] = b"
| "argmin_scan b m i (d # ds) =
     (if d < m then argmin_scan i d (Suc i) ds else argmin_scan b m (Suc i) ds)"

definition argmin :: "'d::linorder list \<Rightarrow> error + nat" where
  "argmin ds = (case ds of [] \<Rightarrow> Inl ValueError | d # ds' \<Rightarrow> Inr (argmin_scan 0 d 1 ds'))"

text \<open>One entry of the dictionary \<^verbatim>\<open>cluster_summaries\<close>.\<close>

record group_summary =
  representative_headline :: string
  headlines :: "string list"
  size_g :: nat

text \<open>
  The body of the loop of \<^verbatim>\<open>get_cluster_summaries\<close> for one \<^verbatim>\<open>cluster_id\<close>:
  \<open>None\<close> when the group has no headline. \<open>nd e c\<close> stands for
  \<^verbatim>\<open>np.linalg.norm(e - c)\<close>, the Euclidean distance of a row to the centroid. Each
  subscript that is out of range, and each attribute that is missing, is an error branch.
\<close>

definition summarize_cluster ::
  "('v \<Rightarrow> 'v \<Rightarrow> 'd::linorder) \<Rightarrow> 'v clusterer \<Rightarrow> item list \<Rightarrow> nat \<Rightarrow> error + group_summary option" where
  "summarize_cluster nd st rs c =
     (let cluster_headlines_c = map headline (filter (\<lambda>it. cluster_id it = c) rs) in
      if cluster_headlines_c = [] then Inr None
      else
       (let cluster_indices = map embedding_index (filter (\<lambda>it. cluster_id it = c) rs) in
        (case embeddings st of
           None \<Rightarrow> Inl TypeError
         | Some E \<Rightarrow>
            (if \<exists>i \<in> set cluster_indices. length E \<le> i then Inl IndexError
             else
              (let cluster_embeddings = map (\<lambda>i. E ! i) cluster_indices in
               (case cluster_centers (kmeans st) of
                  None \<Rightarrow> Inl AttributeError
                | Some C \<Rightarrow>
                   (if length C \<le> c then Inl IndexError
                    else
                     (let centroid = C ! c;
                          distances = map (\<lambda>e. nd e centroid) cluster_embeddings in
                      (case argmin distances of
                         Inl e \<Rightarrow> Inl e
                       | Inr a \<Rightarrow>
                          (let representative_idx = cluster_indices ! a in
                           if length rs \<le> representative_idx then Inl IndexError
                           else Inr (Some
                             \<lparr>representative_headline = headline (rs ! representative_idx),
                              headlines = cluster_headlines_c,
                              size_g = length cluster_headlines_c\<rparr>)))))))))))"

text \<open>
  The loop over \<^verbatim>\<open>range(self.n_clusters)\<close>. The dictionary keeps insertion order, so it
  is a list of pairs; the keys of one run are distinct.
\<close>

fun summaries_loop ::
  "('v \<Rightarrow> 'v \<Rightarrow> 'd::linorder) \<Rightarrow> 'v clusterer \<Rightarrow> item list \<Rightarrow> nat list
     \<Rightarrow> (nat \<times> group_summary) list \<Rightarrow> error + (nat \<times> group_summary) list" where
  "summaries_loop nd st rs [] acc = Inr acc"
| "summaries_loop nd st rs (c # cs) acc =
     (case summarize_cluster nd st rs c of
        Inl e \<Rightarrow> Inl e
      | Inr None \<Rightarrow> summaries_loop nd st rs cs acc
      | Inr (Some s) \<Rightarrow> summaries_loop nd st rs cs (acc @ [(c, s)]))"

definition get_cluster_summaries ::
  "('v \<Rightarrow> 'v \<Rightarrow> 'd::linorder) \<Rightarrow> 'v clusterer \<Rightarrow> item list \<Rightarrow> error + (nat \<times> group_summary) list" where
  "get_cluster_summaries nd st rs = summaries_loop nd st rs [0..<n_clusters st] []"

subsection \<open>Well-formed cluster results\<close>

text \<open>
  \<^verbatim>\<open>get_cluster_summaries\<close> uses \<^verbatim>\<open>embedding_index\<close> both as a row of the embeddings
  and as a position in \<^verbatim>\<open>cluster_results\<close>. The results of \<^verbatim>\<open>cluster_headlines\<close> are
  numbered by \<^verbatim>\<open>enumerate\<close>, so the two agree.
\<close>

definition index_aligned :: "item list \<Rightarrow> bool" where
  "index_aligned rs \<longleftrightarrow> map embedding_index rs = [0..<length rs]"

text \<open>
  A state that can summarise the results: a row of embeddings for each result and a
  centre for each group id of the loop.
\<close>

definition summarizable :: "'v clusterer \<Rightarrow> item list \<Rightarrow> bool" where
  "summarizable st rs \<longleftrightarrow>
     index_aligned rs \<and>
     (case embeddings st of None \<Rightarrow> False | Some E \<Rightarrow> length rs \<le> length E) \<and>
     (case cluster_centers (kmeans st) of None \<Rightarrow> False | Some C \<Rightarrow> n_clusters st \<le> length C)"

text \<open>
  The vectors that a call of \<^verbatim>\<open>cluster_headlines\<close> hands to the fit: the stored
  embeddings when there are some, the encodings of the headlines otherwise.
\<close>

definition vectors_clustered ::
  "(string \<Rightarrow> string list \<Rightarrow> 'v list) \<Rightarrow> 'v clusterer \<Rightarrow> string list \<Rightarrow> 'v list" where
  "vectors_clustered enc st hs =
     (case embeddings st of None \<Rightarrow> enc (embedding_model st) hs | Some E \<Rightarrow> E)"

subsection \<open>The pipeline\<close>

text \<open>
  The two calls that every caller makes in a row (the \<^verbatim>\<open>__main__\<close> block of
  clustering.py, the scheduler, the dashboard): \<^verbatim>\<open>cluster_headlines\<close>, then
  \<^verbatim>\<open>get_cluster_summaries\<close> on its result.
\<close>

definition cluster_pipeline ::
  "(string \<Rightarrow> string list \<Rightarrow> 'v list) \<Rightarrow> 'v kmeans_alg \<Rightarrow> ('v \<Rightarrow> 'v \<Rightarrow> 'd::linorder) \<Rightarrow> nat
     \<Rightarrow> 'v clusterer \<Rightarrow> string list
     \<Rightarrow> (error + item list \<times> (nat \<times> group_summary) list) \<times> 'v clusterer" where
  "cluster_pipeline enc alg nd g st hs =
     (case cluster_headlines enc alg g st hs of
        (Inl e, st') \<Rightarrow> (Inl e, st')
      | (Inr rs, st') \<Rightarrow>
          (case get_cluster_summaries nd st' rs of
             Inl e \<Rightarrow> (Inl e, st')
           | Inr tbl \<Rightarrow> (Inr (rs, tbl), st')))"

subsection \<open>Instances of the library parameters\<close>

text \<open>
  Small instances of the encoder, of the fitting algorithm and of the distance, on
  one-dimensional integer vectors, on which the definitions can be evaluated: the
  encoder gives the length of a text, the fit deals the rows out to the groups in turn
  and takes the first \<open>k\<close> rows as centres, and the distance is the absolute difference.
  The theorems hold for every instance; these show that their hypotheses can be met.
\<close>

definition length_enc :: "string \<Rightarrow> string list \<Rightarrow> int list" where
  "length_enc m hs = map (\<lambda>h. int (length h)) hs"

definition round_robin_alg :: "int kmeans_alg" where
  "round_robin_alg seed ni k X =
     (if X = [] \<or> length X < k \<or> k = 0 then Inl ValueError
      else Inr (map (\<lambda>i. i mod k) [0..<length X], take k X))"

definition dist1 :: "int \<Rightarrow> int \<Rightarrow> int" where
  "dist1 e c = \<bar>e - c\<bar>"

text \<open>
  A run on four headlines and two groups: the encodings are \<open>[1, 3, 5, 3]\<close>, the labels
  \<open>[0, 1, 0, 1]\<close> and the centres \<open>[1, 3]\<close>, so the two members of group 1 are equally
  far from its centre.
\<close>

definition example_headlines :: "string list" where
  "example_headlines = [''a'', ''bcd'', ''efghi'', ''xyz'']"

definition example_fitted :: "int clusterer" where
  "example_fitted =
     snd (cluster_headlines length_enc round_robin_alg 0 (init ''m'' 2) example_headlines)"

definition example_results :: "item list" where
  "example_results = pair_results example_headlines [0, 1, 0, 1]"

definition example_table :: "(nat \<times> group_summary) list" where
  "example_table =
     [(0, \<lparr>representative_headline = ''a'', headlines = [''a'', ''efghi''], size_g = 2\<rparr>),
      (1, \<lparr>representative_headline = ''bcd'', headlines = [''bcd'', ''xyz''], size_g = 2\<rparr>)]"

subsection \<open>save_model and load_model\<close>

text \<open>
  Nothing in \<^verbatim>\<open>load_model\<close> looks at what it reads, so the attributes of an instance can
  come to hold any Python value. The values, as far as the model needs them: \<^verbatim>\<open>None\<close>, an
  integer, a string, a two-dimensional float array (its rows), an integer array, a KMeans
  estimator, a dictionary with string keys, and any other object (one without subscripts).
\<close>

datatype 'v pyval =
    PNone | PInt int | PStr string
  | PArray "'v list"
  | PLabels "nat list"
  | PKMeans "'v kmeans"
  | PDict "(string \<times> 'v pyval) list"
  | PObject

text \<open>
  \<^verbatim>\<open>obj[key]\<close> with a string key: a dictionary answers or raises \<^verbatim>\<open>KeyError\<close>, a numpy
  array raises \<^verbatim>\<open>IndexError\<close>, every other value \<^verbatim>\<open>TypeError\<close>.
\<close>

fun subscript :: "'v pyval \<Rightarrow> string \<Rightarrow> error + 'v pyval" where
  "subscript (PDict d) key = (case map_of d key of None \<Rightarrow> Inl KeyError | Some v \<Rightarrow> Inr v)"
| "subscript (PArray rows) key = Inl IndexError"
| "subscript (PLabels ls) key = Inl IndexError"
| "subscript obj key = Inl TypeError"

text \<open>
  The attributes of an instance as Python values; the loaded encoder is kept by name, as
  in \<open>clusterer\<close>.
\<close>

record 'v pyinstance =
  py_model_name :: "'v pyval"
  py_n_clusters :: "'v pyval"
  py_embedding_model :: string
  py_kmeans :: "'v pyval"
  py_embeddings :: "'v pyval"
  py_cluster_labels :: "'v pyval"

text \<open>
  The instances on which the other methods are modelled are those whose attributes have
  the kinds that \<^verbatim>\<open>__init__\<close> and \<^verbatim>\<open>cluster_headlines\<close> give them: \<open>to_py\<close> shows a state of
  type \<open>clusterer\<close> as such an instance, and \<open>of_py\<close> reads one back when the kinds are right.
\<close>

definition to_py :: "'v clusterer \<Rightarrow> 'v pyinstance" where
  "to_py st =
     \<lparr>py_model_name = PStr (model_name st),
      py_n_clusters = PInt (int (n_clusters st)),
      py_embedding_model = embedding_model st,
      py_kmeans = PKMeans (kmeans st),
      py_embeddings = (case embeddings st of None \<Rightarrow> PNone | Some E \<Rightarrow> PArray E),
      py_cluster_labels = (case cluster_labels st of None \<Rightarrow> PNone | Some ls \<Rightarrow> PLabels ls)\<rparr>"

fun as_rows :: "'v pyval \<Rightarrow> 'v list option option" where
  "as_rows PNone = Some None"
| "as_rows (PArray E) = Some (Some E)"
| "as_rows v = None"

fun as_labels :: "'v pyval \<Rightarrow> nat list option option" where
  "as_labels PNone = Some None"
| "as_labels (PLabels ls) = Some (Some ls)"
| "as_labels v = None"

fun of_py_fields ::
  "'v pyval \<Rightarrow> 'v pyval \<Rightarrow> string \<Rightarrow> 'v pyval \<Rightarrow> 'v pyval \<Rightarrow> 'v pyval \<Rightarrow> 'v clusterer option" where
  "of_py_fields (PStr mn) (PInt n) em (PKMeans km) e l =
     (case (as_rows e, as_labels l) of
        (Some E, Some ls) \<Rightarrow>
          if 0 \<le> n
          then Some \<lparr>model_name = mn, n_clusters = nat n, embedding_model = em, kmeans = km,
                     embeddings = E, cluster_labels = ls\<rparr>
          else None
      | _ \<Rightarrow> None)"
| "of_py_fields mn n em km e l = None"

definition of_py :: "'v pyinstance \<Rightarrow> 'v clusterer option" where
  "of_py p =
     of_py_fields (py_model_name p) (py_n_clusters p) (py_embedding_model p) (py_kmeans p)
       (py_embeddings p) (py_cluster_labels p)"

text \<open>
  A file of the store holds a pickle of a value, or bytes on which \<^verbatim>\<open>pickle.load\<close> raises
  (\<^verbatim>\<open>EOFError\<close> on an empty or truncated file, \<^verbatim>\<open>UnpicklingError\<close> on bytes that are no
  pickle, and others), or cannot be opened for reading although it exists
  (\<^verbatim>\<open>PermissionError\<close>, \<^verbatim>\<open>IsADirectoryError\<close>: an \<^verbatim>\<open>OSError\<close> that is not
  \<^verbatim>\<open>FileNotFoundError\<close>).
\<close>

datatype 'v stored = Pickle "'v pyval" | Unpicklable error | Unreadable

record 'v filesystem =
  files :: "string \<Rightarrow> 'v stored option"
  writable :: "string \<Rightarrow> bool"

definition DATA_DIR :: string where
  "DATA_DIR = ''data''"

text \<open>The default of \<^verbatim>\<open>filepath\<close>: \<^verbatim>\<open>os.path.join(DATA_DIR, 'clustering_model.pkl')\<close>.\<close>

definition model_path :: "string option \<Rightarrow> string" where
  "model_path filepath =
     (case filepath of None \<Rightarrow> DATA_DIR @ ''/clustering_model.pkl'' | Some p \<Rightarrow> p)"

text \<open>
  \<^verbatim>\<open>save_model\<close>: \<^verbatim>\<open>open(filepath, 'wb')\<close> raises where the path cannot be written;
  otherwise the file holds the pickle of the dictionary of the five attributes.
\<close>

definition save_model ::
  "'v filesystem \<Rightarrow> 'v pyinstance \<Rightarrow> string option \<Rightarrow> (error + unit) \<times> 'v filesystem" where
  "save_model fs p filepath =
     (let path = model_path filepath;
          model_data = PDict
            [(''kmeans'', py_kmeans p),
             (''embeddings'', py_embeddings p),
             (''cluster_labels'', py_cluster_labels p),
             (''model_name'', py_model_name p),
             (''n_clusters'', py_n_clusters p)]
      in if writable fs path
         then (Inr (), fs\<lparr>files := (files fs)(path \<mapsto> Pickle model_data)\<rparr>)
         else (Inl OSError, fs))"

text \<open>
  \<^verbatim>\<open>load_model\<close>: only \<^verbatim>\<open>FileNotFoundError\<close> is caught and gives \<^verbatim>\<open>False\<close>; every
  other exception leaves the call. The five attributes are assigned one after the other,
  each with whatever the subscript gives, so a subscript that raises does so after the
  attributes before it have been overwritten.
\<close>

definition load_model ::
  "'v filesystem \<Rightarrow> 'v pyinstance \<Rightarrow> string option \<Rightarrow> (error + bool) \<times> 'v pyinstance" where
  "load_model fs p filepath =
     (case files fs (model_path filepath) of
        None \<Rightarrow> (Inr False, p)
      | Some Unreadable \<Rightarrow> (Inl OSError, p)
      | Some (Unpicklable e) \<Rightarrow> (Inl e, p)
      | Some (Pickle model_data) \<Rightarrow>
          (case subscript model_data ''kmeans'' of Inl e \<Rightarrow> (Inl e, p) | Inr v1 \<Rightarrow>
           let p1 = p\<lparr>py_kmeans := v1\<rparr> in
          (case subscript model_data ''embeddings'' of Inl e \<Rightarrow> (Inl e, p1) | Inr v2 \<Rightarrow>
           let p2 = p1\<lparr>py_embeddings := v2\<rparr> in
          (case subscript model_data ''cluster_labels'' of Inl e \<Rightarrow> (Inl e, p2) | Inr v3 \<Rightarrow>
           let p3 = p2\<lparr>py_cluster_labels := v3\<rparr> in
          (case subscript model_data ''model_name'' of Inl e \<Rightarrow> (Inl e, p3) | Inr v4 \<Rightarrow>
           let p4 = p3\<lparr>py_model_name := v4\<rparr> in
          (case subscript model_data ''n_clusters'' of Inl e \<Rightarrow> (Inl e, p4) | Inr v5 \<Rightarrow>
           (Inr True, p4\<lparr>py_n_clusters := v5\<rparr>)))))))"

subsection \<open>Stored objects and their keys\<close>







text \<open>
  A file system without files in which every path can be written, and a dictionary with
  the five keys whose values are all of the wrong kind.
\<close>

definition empty_fs :: "int filesystem" where
  "empty_fs = \<lparr>files = (\<lambda>p. None), writable = (\<lambda>p. True)\<rparr>"


section \<open>The summarizer (summarizer.py)\<close>

subsection \<open>Strings\<close>

text \<open>
  Python strings as the bytes of their UTF-8 encoding. \<^verbatim>\<open>str.lower\<close> lowers the ASCII
  letters; of the other code points only the Kelvin sign (to \<open>k\<close>) and the dotted capital I
  (to \<open>i\<close> and a combining dot) have an ASCII letter in their lower case, and these two are
  lowered as well. Every other byte is left alone: lowering a letter outside ASCII changes
  bytes outside ASCII only, which no test for an ASCII key word reads. \<^verbatim>\<open>str.title\<close> is
  applied to ASCII constants only.
\<close>

definition nl :: string where
  "nl = [CHR 0x0A]"

definition ind :: "nat \<Rightarrow> string" where
  "ind n = replicate n (CHR '' '')"

definition bullet :: string where
  "bullet = [CHR 0xE2, CHR 0x80, CHR 0xA2]"

definition is_upper :: "char \<Rightarrow> bool" where
  "is_upper c \<longleftrightarrow> 65 \<le> (of_char c :: nat) \<and> (of_char c :: nat) \<le> 90"

definition is_lower :: "char \<Rightarrow> bool" where
  "is_lower c \<longleftrightarrow> 97 \<le> (of_char c :: nat) \<and> (of_char c :: nat) \<le> 122"

definition lower_char :: "char \<Rightarrow> char" where
  "lower_char c = (if is_upper c then char_of ((of_char c :: nat) + 32) else c)"

definition upper_char :: "char \<Rightarrow> char" where
  "upper_char c = (if is_lower c then char_of ((of_char c :: nat) - 32) else c)"

fun lower :: "string \<Rightarrow> string" where
  "lower (a # b # c # cs) =
     (if a = CHR 0xE2 \<and> b = CHR 0x84 \<and> c = CHR 0xAA then CHR ''k'' # lower cs
      else if a = CHR 0xC4 \<and> b = CHR 0xB0 then CHR ''i'' # CHR 0xCC # CHR 0x87 # lower (c # cs)
      else lower_char a # lower (b # c # cs))"
| "lower [a, b] =
     (if a = CHR 0xC4 \<and> b = CHR 0xB0 then [CHR ''i'', CHR 0xCC, CHR 0x87]
      else [lower_char a, lower_char b])"
| "lower [a] = [lower_char a]"
| "lower [] = []"

text \<open>\<^verbatim>\<open>str.title\<close>: a letter after a letter is lowered, a letter after anything else raised.\<close>

fun title_from :: "bool \<Rightarrow> string \<Rightarrow> string" where
  "title_from prev [] = []"
| "title_from prev (c # cs) =
     (if is_lower c then (if prev then c else upper_char c) # title_from True cs
      else if is_upper c then (if prev then lower_char c else c) # title_from True cs
      else c # title_from False cs)"

definition title :: "string \<Rightarrow> string" where
  "title s = title_from False s"

fun starts_with :: "string \<Rightarrow> string \<Rightarrow> bool" where
  "starts_with [] ys = True"
| "starts_with (x # xs) [] = False"
| "starts_with (x # xs) (y # ys) = (x = y \<and> starts_with xs ys)"

text \<open>\<^verbatim>\<open>w in h\<close> on strings.\<close>

fun is_in :: "string \<Rightarrow> string \<Rightarrow> bool" where
  "is_in w [] = (w = [])"
| "is_in w (c # cs) = (starts_with w (c # cs) \<or> is_in w cs)"

text \<open>\<^verbatim>\<open>any(word in h for word in ws)\<close>.\<close>

definition any_in :: "string list \<Rightarrow> string \<Rightarrow> bool" where
  "any_in ws h = list_ex (\<lambda>word. is_in word h) ws"

text \<open>\<^verbatim>\<open>sep.join(xs)\<close>.\<close>

fun join :: "string \<Rightarrow> string list \<Rightarrow> string" where
  "join sep [] = []"
| "join sep [x] = x"
| "join sep (x # y # ys) = x @ sep @ join sep (y # ys)"

text \<open>\<^verbatim>\<open>str(n)\<close> for a natural number.\<close>

fun str_nat :: "nat \<Rightarrow> string" where
  "str_nat n =
     (if n < 10 then [char_of (48 + n)] else str_nat (n div 10) @ [char_of (48 + n mod 10)])"

subsection \<open>The environment of the summarizer\<close>

text \<open>
  What a call of \<^verbatim>\<open>requests.post\<close> gives back: the status code, and the outcome of
  \<^verbatim>\<open>response.json()\<close> followed by the chain of \<^verbatim>\<open>get\<close> and subscripts that extracts the
  generated text (the text, or the exception that the chain raises).
\<close>

record response =
  status_code :: nat
  generated_text :: "error + string"

text \<open>
  The environment of one interpreter process. \<open>post t url key text\<close> is the answer of the
  service at time \<open>t\<close> (or the exception of \<^verbatim>\<open>requests\<close>); \<open>clock t\<close> is
  \<^verbatim>\<open>datetime.now().isoformat()\<close>; \<open>set_order xs\<close> is \<^verbatim>\<open>list(set(xs))\<close>, whose order
  follows the string hashes of the process; \<open>json_loads\<close> is \<^verbatim>\<open>json.loads\<close>; \<open>to_csv\<close>
  and \<open>read_csv\<close> stand for the pandas round trip to the summaries file, where reading
  raises on a file without columns (\<^verbatim>\<open>EmptyDataError\<close>).
\<close>

record summary_rec =
  cluster_id_s :: nat
  summary :: string
  headlines_count :: nat
  headlines_s :: "string list"
  timestamp :: string

record ('j, 'r) env =
  post :: "nat \<Rightarrow> string \<Rightarrow> string \<Rightarrow> string \<Rightarrow> error + response"
  clock :: "nat \<Rightarrow> string"
  set_order :: "string list \<Rightarrow> string list"
  json_loads :: "string \<Rightarrow> error + 'j"
  to_csv :: "summary_rec list \<Rightarrow> string"
  read_csv :: "string \<Rightarrow> error + 'r list"

text \<open>
  The world outside the instance: the time, which every request and every reading of the
  clock advances, and the content of the summaries file.
\<close>

record world =
  tick :: nat
  summaries_csv :: "string option"

subsection \<open>GeminiSummarizer\<close>

record summarizer =
  api_key :: string
  model_name_s :: string
  use_mock :: bool
  base_url :: string

definition GEMINI_MODEL :: string where
  "GEMINI_MODEL = ''models/gemini-pro''"

definition test_api_access :: "('j, 'r) env \<Rightarrow> summarizer \<times> world \<Rightarrow> summarizer \<times> world" where
  "test_api_access env sw =
     (case sw of (s, w) \<Rightarrow>
        (case post env (tick w) (base_url s @ ''/v1beta/models/gemini-2.0-flash:generateContent'')
                (api_key s) ''Test message'' of
           Inr r \<Rightarrow> if status_code r = 200 then s\<lparr>use_mock := False\<rparr> else s\<lparr>use_mock := True\<rparr>
         | Inl e \<Rightarrow> s\<lparr>use_mock := True\<rparr>,
         w\<lparr>tick := tick w + 1\<rparr>))"

text \<open>\<^verbatim>\<open>__init__\<close>; the key is \<^verbatim>\<open>GEMINI_API_KEY\<close> of the configuration.\<close>

definition summarizer_init :: "('j, 'r) env \<Rightarrow> string \<Rightarrow> world \<Rightarrow> summarizer \<times> world" where
  "summarizer_init env key w =
     test_api_access env
       (\<lparr>api_key = key, model_name_s = GEMINI_MODEL, use_mock = False,
         base_url = ''https://generativelanguage.googleapis.com''\<rparr>, w)"

text \<open>\<^verbatim>\<open>_generate_text_via_rest\<close>: the handler prints and raises the exception again.\<close>

definition generate_text_via_rest ::
  "('j, 'r) env \<Rightarrow> summarizer \<Rightarrow> world \<Rightarrow> string \<Rightarrow> string \<Rightarrow> (error + string) \<times> world" where
  "generate_text_via_rest env s w prompt model =
     (case post env (tick w) (base_url s @ ''/v1beta/models/'' @ model @ '':generateContent'')
             (api_key s) prompt of
        Inr r \<Rightarrow> if status_code r = 200 then generated_text r else Inl ApiError
      | Inl e \<Rightarrow> Inl e,
      w\<lparr>tick := tick w + 1\<rparr>)"

subsection \<open>The fallback summary\<close>

definition company_names :: "string list" where
  "company_names =
     [''apple'', ''tesla'', ''microsoft'', ''google'', ''amazon'', ''facebook'', ''netflix'',
      ''disney'', ''intel'', ''amd'', ''jpmorgan'', ''wells fargo'', ''citigroup'',
      ''goldman sachs'', ''bank of america'']"

text \<open>What one headline appends to \<^verbatim>\<open>companies\<close>, \<^verbatim>\<open>sectors\<close> and \<^verbatim>\<open>themes\<close>.\<close>

definition headline_companies :: "string \<Rightarrow> string list" where
  "headline_companies headline_lower =
     map title (filter (\<lambda>company. is_in company headline_lower) company_names)"

definition headline_sectors :: "string \<Rightarrow> string list" where
  "headline_sectors headline_lower =
     (if any_in [''tech'', ''technology'', ''software'', ''ai'', ''cloud''] headline_lower
      then [''Technology''] else []) @
     (if any_in [''bank'', ''financial'', ''finance'', ''earnings'', ''profit''] headline_lower
      then [''Financial Services''] else []) @
     (if any_in [''streaming'', ''entertainment'', ''media''] headline_lower
      then [''Entertainment''] else []) @
     (if any_in [''chip'', ''semiconductor'', ''processor''] headline_lower
      then [''Semiconductors''] else []) @
     (if any_in [''fed'', ''federal reserve'', ''interest rate''] headline_lower
      then [''Monetary Policy''] else []) @
     (if any_in [''oil'', ''gold'', ''commodity''] headline_lower
      then [''Commodities''] else [])"

definition headline_themes :: "string \<Rightarrow> string list" where
  "headline_themes headline_lower =
     (if any_in [''earnings'', ''profit'', ''revenue'', ''quarterly''] headline_lower
      then [''Earnings Reports''] else []) @
     (if any_in [''stock'', ''shares'', ''market''] headline_lower
      then [''Market Movements''] else []) @
     (if any_in [''regulation'', ''regulatory'', ''scrutiny''] headline_lower
      then [''Regulatory Issues''] else []) @
     (if any_in [''ai'', ''artificial intelligence'', ''innovation''] headline_lower
      then [''AI & Innovation''] else [])"

text \<open>
  The first branch of \<^verbatim>\<open>generate_summary\<close>: the three lists grow over the headlines in
  order, \<^verbatim>\<open>list(set(xs))[:n]\<close> removes the duplicates and keeps the first \<open>n\<close> in the order
  of the set, and the text is put together.
\<close>

definition mock_summary_text :: "(string list \<Rightarrow> string list) \<Rightarrow> string list \<Rightarrow> string" where
  "mock_summary_text list_of_set hs =
     (let companies = take 3 (list_of_set
            (concat (map (\<lambda>h. headline_companies (lower h)) hs)));
          sectors = take 2 (list_of_set
            (concat (map (\<lambda>h. headline_sectors (lower h)) hs)));
          themes = take 2 (list_of_set
            (concat (map (\<lambda>h. headline_themes (lower h)) hs)));
          company_text = (if companies \<noteq> [] then join '', '' companies else ''major companies'');
          sector_text = (if sectors \<noteq> [] then join '' and '' sectors
                         else ''technology and financial sectors'');
          theme_text = (if themes \<noteq> [] then join '' and '' themes else ''market developments'')
      in ''This cluster focuses on '' @ company_text @ '', covering '' @
         str_nat (length hs) @ '' headlines in the '' @ sector_text @
         ''. Key themes include '' @ theme_text @
         '', with significant implications for market sentiment and investor confidence.'')"

definition summary_prompt :: "string list \<Rightarrow> string" where
  "summary_prompt hs =
     concat
      [nl,
       ind 16 @ ''Analyze these financial news headlines and provide a concise summary:'' @ nl,
       ind 16 @ nl,
       ind 16 @ ''Headlines:'' @ nl,
       ind 16 @ join nl (map (\<lambda>h. ''- '' @ h) hs) @ nl,
       ind 16 @ nl,
       ind 16 @ ''Please provide a professional summary that includes:'' @ nl,
       ind 16 @ ''1. Key companies mentioned'' @ nl,
       ind 16 @ ''2. Main sectors involved'' @ nl,
       ind 16 @ ''3. Primary themes or trends'' @ nl,
       ind 16 @ ''4. Market implications'' @ nl,
       ind 16 @ nl,
       ind 16 @ ''Keep the summary under 200 words and focus on actionable insights.'' @ nl,
       ind 16]"

definition make_result :: "nat \<Rightarrow> string \<Rightarrow> string list \<Rightarrow> string \<Rightarrow> summary_rec" where
  "make_result cid summary_text hs now =
     \<lparr>cluster_id_s = cid, summary = summary_text,
      headlines_count = length hs, headlines_s = hs,
      timestamp = now\<rparr>"

text \<open>
  \<^verbatim>\<open>generate_summary\<close>. When the request raises, the handler sets \<^verbatim>\<open>use_mock\<close> and calls
  the method again, which then takes the first branch.
\<close>

function generate_summary ::
  "('j, 'r) env \<Rightarrow> summarizer \<times> world \<Rightarrow> string list \<Rightarrow> nat \<Rightarrow> summary_rec \<times> summarizer \<times> world" where
  "generate_summary env (s, w) hs cid =
     (if use_mock s
      then (make_result cid (mock_summary_text (set_order env) hs)
              hs (clock env (tick w)),
            s, w\<lparr>tick := tick w + 1\<rparr>)
      else
        (case generate_text_via_rest env s w (summary_prompt hs) ''gemini-2.0-flash'' of
           (Inr summary_text, w') \<Rightarrow>
             (make_result cid summary_text hs (clock env (tick w')),
              s, w'\<lparr>tick := tick w' + 1\<rparr>)
         | (Inl e, w') \<Rightarrow>
             generate_summary env (s\<lparr>use_mock := True\<rparr>, w') hs cid))"
  by pat_completeness auto
termination
  by (relation "measure (\<lambda>(env, (s, w), hs, cid). if use_mock s then 0 else 1)") auto

declare generate_summary.simps [simp del]

text \<open>\<^verbatim>\<open>generate_all_summaries\<close>: the entries of the dictionary in order.\<close>

fun generate_all_loop ::
  "('j, 'r) env \<Rightarrow> summarizer \<times> world \<Rightarrow> (nat \<times> group_summary) list \<Rightarrow> summary_rec list
     \<Rightarrow> summary_rec list \<times> summarizer \<times> world" where
  "generate_all_loop env sw [] summaries = (summaries, sw)"
| "generate_all_loop env sw ((cid, cluster_data) # rest) summaries =
     (case generate_summary env sw (headlines cluster_data) cid of
        (r, sw') \<Rightarrow> generate_all_loop env sw' rest (summaries @ [r]))"

definition generate_all_summaries ::
  "('j, 'r) env \<Rightarrow> summarizer \<times> world \<Rightarrow> (nat \<times> group_summary) list
     \<Rightarrow> summary_rec list \<times> summarizer \<times> world" where
  "generate_all_summaries env sw cluster_summaries = generate_all_loop env sw cluster_summaries []"

subsection \<open>The executive summary\<close>

definition mock_executive_summary :: "summary_rec list \<Rightarrow> string" where
  "mock_executive_summary all_summaries =
     (let total_headlines = sum_list (map headlines_count all_summaries);
          total_clusters = length all_summaries
      in concat
         [nl,
          ind 12 @ ''Executive Summary - Financial News Analysis'' @ nl,
          ind 12 @ nl,
          ind 12 @ ''Overview:'' @ nl,
          ind 12 @ ''Analyzed '' @ str_nat total_headlines @ '' financial headlines across '' @ str_nat total_clusters @ '' thematic clusters.'' @ nl,
          ind 12 @ nl,
          ind 12 @ ''Key Insights:'' @ nl,
          ind 12 @ bullet @ '' Technology sector shows strong earnings momentum with major tech companies reporting positive results'' @ nl,
          ind 12 @ bullet @ '' Financial services face regulatory challenges while expanding digital offerings'' @ nl,
          ind 12 @ bullet @ '' Market sentiment remains positive with S&P 500 reaching new highs'' @ nl,
          ind 12 @ bullet @ '' AI and cloud services continue to drive innovation across sectors'' @ nl,
          ind 12 @ bullet @ '' Commodity prices show volatility due to geopolitical factors'' @ nl,
          ind 12 @ nl,
          ind 12 @ ''Market Implications:'' @ nl,
          ind 12 @ bullet @ '' Continued focus on tech earnings and AI developments'' @ nl,
          ind 12 @ bullet @ '' Regulatory scrutiny may impact financial sector growth'' @ nl,
          ind 12 @ bullet @ '' Diversification across sectors recommended for risk management'' @ nl,
          ind 12])"

definition executive_prompt :: "summary_rec list \<Rightarrow> string" where
  "executive_prompt all_summaries =
     (let summaries_text = join (nl @ nl)
            (map (\<lambda>s. ''Cluster '' @ str_nat (cluster_id_s s) @ '': '' @ summary s) all_summaries)
      in concat
         [nl,
          ind 16 @ ''Based on these financial news cluster summaries, create a comprehensive executive summary:'' @ nl,
          ind 16 @ nl,
          ind 16 @ summaries_text @ nl,
          ind 16 @ nl,
          ind 16 @ ''Please provide an executive summary that includes:'' @ nl,
          ind 16 @ ''1. Overall market overview'' @ nl,
          ind 16 @ ''2. Key trends and themes'' @ nl,
          ind 16 @ ''3. Sector-specific insights'' @ nl,
          ind 16 @ ''4. Investment implications'' @ nl,
          ind 16 @ ''5. Risk factors to watch'' @ nl,
          ind 16 @ nl,
          ind 16 @ ''Format as a professional executive summary suitable for financial professionals.'' @ nl,
          ind 16])"

function generate_executive_summary ::
  "('j, 'r) env \<Rightarrow> summarizer \<times> world \<Rightarrow> summary_rec list \<Rightarrow> string \<times> summarizer \<times> world" where
  "generate_executive_summary env (s, w) all_summaries =
     (if use_mock s then (mock_executive_summary all_summaries, s, w)
      else
        (case generate_text_via_rest env s w (executive_prompt all_summaries) ''gemini-2.0-flash'' of
           (Inr executive_summary, w') \<Rightarrow> (executive_summary, s, w')
         | (Inl e, w') \<Rightarrow>
             generate_executive_summary env (s\<lparr>use_mock := True\<rparr>, w') all_summaries))"
  by pat_completeness auto
termination
  by (relation "measure (\<lambda>(env, (s, w), all_summaries). if use_mock s then 0 else 1)") auto

declare generate_executive_summary.simps [simp del]

subsection \<open>The sentiment\<close>

record sentiment_counts =
  positive :: nat
  negative :: nat
  neutral :: int
  overall_sentiment :: string

text \<open>The result of \<^verbatim>\<open>analyze_sentiment\<close>: the counts of the fallback, or the parsed answer.\<close>

datatype 'j sentiment = Counts sentiment_counts | Parsed 'j

definition mock_sentiment :: "string list \<Rightarrow> sentiment_counts" where
  "mock_sentiment hs =
     (let positive_count = length (filter (\<lambda>h.
            any_in [''rise'', ''gain'', ''beat'', ''strong'', ''positive'', ''growth''] (lower h)) hs);
          negative_count = length (filter (\<lambda>h.
            any_in [''fall'', ''drop'', ''loss'', ''weak'', ''negative'', ''decline''] (lower h)) hs);
          neutral_count = int (length hs) - int positive_count - int negative_count
      in \<lparr>positive = positive_count, negative = negative_count, neutral = neutral_count,
          overall_sentiment =
            (if positive_count > negative_count then ''positive''
             else if negative_count > positive_count then ''negative'' else ''neutral'')\<rparr>)"

definition sentiment_prompt :: "string list \<Rightarrow> string" where
  "sentiment_prompt hs =
     (let headlines_text = join nl hs
      in concat
         [nl,
          ind 16 @ ''Analyze the sentiment of these financial headlines:'' @ nl,
          ind 16 @ nl,
          ind 16 @ headlines_text @ nl,
          ind 16 @ nl,
          ind 16 @ ''Provide a JSON response with:'' @ nl,
          ind 16 @ ''- positive: count of positive headlines'' @ nl,
          ind 16 @ ''- negative: count of negative headlines  '' @ nl,
          ind 16 @ ''- neutral: count of neutral headlines'' @ nl,
          ind 16 @ ''- overall_sentiment: overall sentiment (positive/negative/neutral)'' @ nl,
          ind 16])"

text \<open>
  \<^verbatim>\<open>str.strip\<close> removes the white space of Unicode from both ends: the code points 9 to
  13, 28 to 32, U+0085, U+00A0, U+1680, U+2000 to U+200A, U+2028, U+2029, U+202F, U+205F and
  U+3000, here as the one, two or three bytes of their encodings. The end of the string is
  stripped on the reversed bytes, with the bytes of each code point in reverse.
\<close>

definition space1 :: "char \<Rightarrow> bool" where
  "space1 a \<longleftrightarrow> (of_char a :: nat) \<in> {9, 10, 11, 12, 13, 28, 29, 30, 31, 32}"

definition space2 :: "char \<Rightarrow> char \<Rightarrow> bool" where
  "space2 a b \<longleftrightarrow> a = CHR 0xC2 \<and> (b = CHR 0x85 \<or> b = CHR 0xA0)"

definition space3 :: "char \<Rightarrow> char \<Rightarrow> char \<Rightarrow> bool" where
  "space3 a b c \<longleftrightarrow>
     (a = CHR 0xE1 \<and> b = CHR 0x9A \<and> c = CHR 0x80) \<or>
     (a = CHR 0xE2 \<and> b = CHR 0x80 \<and>
        ((128 \<le> (of_char c :: nat) \<and> (of_char c :: nat) \<le> 138) \<or>
         c = CHR 0xA8 \<or> c = CHR 0xA9 \<or> c = CHR 0xAF)) \<or>
     (a = CHR 0xE2 \<and> b = CHR 0x81 \<and> c = CHR 0x9F) \<or>
     (a = CHR 0xE3 \<and> b = CHR 0x80 \<and> c = CHR 0x80)"

fun lstrip :: "string \<Rightarrow> string" where
  "lstrip (a # b # c # cs) =
     (if space1 a then lstrip (b # c # cs)
      else if space2 a b then lstrip (c # cs)
      else if space3 a b c then lstrip cs
      else a # b # c # cs)"
| "lstrip [a, b] = (if space1 a then lstrip [b] else if space2 a b then [] else [a, b])"
| "lstrip [a] = (if space1 a then [] else [a])"
| "lstrip [] = []"

fun rstrip_rev :: "string \<Rightarrow> string" where
  "rstrip_rev (a # b # c # cs) =
     (if space1 a then rstrip_rev (b # c # cs)
      else if space2 b a then rstrip_rev (c # cs)
      else if space3 c b a then rstrip_rev cs
      else a # b # c # cs)"
| "rstrip_rev [a, b] = (if space1 a then rstrip_rev [b] else if space2 b a then [] else [a, b])"
| "rstrip_rev [a] = (if space1 a then [] else [a])"
| "rstrip_rev [] = []"

definition strip :: "string \<Rightarrow> string" where
  "strip s = rev (rstrip_rev (rev (lstrip s)))"

function analyze_sentiment ::
  "('j, 'r) env \<Rightarrow> summarizer \<times> world \<Rightarrow> string list \<Rightarrow> 'j sentiment \<times> summarizer \<times> world" where
  "analyze_sentiment env (s, w) hs =
     (if use_mock s then (Counts (mock_sentiment hs), s, w)
      else
        (case generate_text_via_rest env s w (sentiment_prompt hs) ''gemini-2.0-flash'' of
           (Inr response_text, w') \<Rightarrow>
             (case json_loads env (strip response_text) of
                Inr j \<Rightarrow> (Parsed j, s, w')
              | Inl e \<Rightarrow> analyze_sentiment env (s\<lparr>use_mock := True\<rparr>, w') hs)
         | (Inl e, w') \<Rightarrow> analyze_sentiment env (s\<lparr>use_mock := True\<rparr>, w') hs))"
  by pat_completeness auto
termination
  by (relation "measure (\<lambda>(env, (s, w), hs). if use_mock s then 0 else 1)") auto

declare analyze_sentiment.simps [simp del]

subsection \<open>The summaries file\<close>

definition save_summaries ::
  "('j, 'r) env \<Rightarrow> summarizer \<times> world \<Rightarrow> summary_rec list \<Rightarrow> summarizer \<times> world" where
  "save_summaries env sw summaries =
     (case sw of (s, w) \<Rightarrow> (s, w\<lparr>summaries_csv := Some (to_csv env summaries)\<rparr>))"

definition load_summaries ::
  "('j, 'r) env \<Rightarrow> summarizer \<times> world \<Rightarrow> (error + 'r list) \<times> summarizer \<times> world" where
  "load_summaries env sw =
     (case sw of (s, w) \<Rightarrow>
        (case summaries_csv w of Some content \<Rightarrow> read_csv env content | None \<Rightarrow> Inr [], s, w))"

subsection \<open>Sequences of calls on one instance\<close>

text \<open>The public methods, as the calls that a client makes on an instance after \<^verbatim>\<open>__init__\<close>.\<close>

datatype call =
    GenerateSummary "string list" nat
  | GenerateAllSummaries "(nat \<times> group_summary) list"
  | GenerateExecutiveSummary "summary_rec list"
  | AnalyzeSentiment "string list"
  | SaveSummaries "summary_rec list"
  | LoadSummaries

fun do_call :: "('j, 'r) env \<Rightarrow> summarizer \<times> world \<Rightarrow> call \<Rightarrow> summarizer \<times> world" where
  "do_call env sw (GenerateSummary hs cid) = snd (generate_summary env sw hs cid)"
| "do_call env sw (GenerateAllSummaries tbl) = snd (generate_all_summaries env sw tbl)"
| "do_call env sw (GenerateExecutiveSummary all_summaries) =
     snd (generate_executive_summary env sw all_summaries)"
| "do_call env sw (AnalyzeSentiment hs) = snd (analyze_sentiment env sw hs)"
| "do_call env sw (SaveSummaries summaries) = save_summaries env sw summaries"
| "do_call env sw LoadSummaries = snd (load_summaries env sw)"

definition do_calls :: "('j, 'r) env \<Rightarrow> summarizer \<times> world \<Rightarrow> call list \<Rightarrow> summarizer \<times> world" where
  "do_calls env sw calls = foldl (do_call env) sw calls"

subsection \<open>Instances of the environment\<close>

text \<open>
  Two environments on which the definitions can be evaluated: one whose requests all
  fail and one whose requests all succeed, each with a given order of sets. Removing the
  duplicates of a list from the left, and the reverse of that, are two of the orders in
  which a set of strings can come out.
\<close>

definition offline_env :: "(string list \<Rightarrow> string list) \<Rightarrow> (unit, unit) env" where
  "offline_env list_of_set =
     \<lparr>post = (\<lambda>t url key text. Inl OSError), clock = str_nat, set_order = list_of_set,
      json_loads = (\<lambda>s. Inl ValueError), to_csv = (\<lambda>rs. nl),
      read_csv = (\<lambda>s. if strip s = [] then Inl EmptyDataError else Inr [])\<rparr>"

definition online_env :: "(string list \<Rightarrow> string list) \<Rightarrow> (unit, unit) env" where
  "online_env list_of_set =
     \<lparr>post = (\<lambda>t url key text. Inr \<lparr>status_code = 200, generated_text = Inr ''generated''\<rparr>),
      clock = str_nat, set_order = list_of_set,
      json_loads = (\<lambda>s. Inr ()), to_csv = (\<lambda>rs. nl),
      read_csv = (\<lambda>s. if strip s = [] then Inl EmptyDataError else Inr [])\<rparr>"

definition fallback_instance :: summarizer where
  "fallback_instance =
     \<lparr>api_key = ''key'', model_name_s = GEMINI_MODEL, use_mock = True,
      base_url = ''https://generativelanguage.googleapis.com''\<rparr>"

definition start_world :: world where
  "start_world = \<lparr>tick = 0, summaries_csv = None\<rparr>"

section \<open>Properties of the clusterer\<close>

subsection \<open>The first least entry\<close>

lemma argmin_scan_spec:
  assumes "b < length pre" "i = length pre" "m = pre ! b"
    "\<forall>j<length pre. m \<le> pre ! j" "\<forall>j<b. m < pre ! j"
  shows "argmin_scan b m i ds < length (pre @ ds) \<and>
         (\<forall>j<length (pre @ ds). (pre @ ds) ! argmin_scan b m i ds \<le> (pre @ ds) ! j) \<and>
         (\<forall>j<argmin_scan b m i ds. (pre @ ds) ! argmin_scan b m i ds < (pre @ ds) ! j)"
  using assms
proof (induction ds arbitrary: pre b m i)
  case Nil
  then show ?case by simp
next
  case (Cons d ds)
  show ?case
  proof (cases "d < m")
    case True
    have "argmin_scan i d (Suc i) ds < length ((pre @ [d]) @ ds) \<and>
         (\<forall>j<length ((pre @ [d]) @ ds). ((pre @ [d]) @ ds) ! argmin_scan i d (Suc i) ds \<le> ((pre @ [d]) @ ds) ! j) \<and>
         (\<forall>j<argmin_scan i d (Suc i) ds. ((pre @ [d]) @ ds) ! argmin_scan i d (Suc i) ds < ((pre @ [d]) @ ds) ! j)"
    proof (rule Cons.IH)
      show "i < length (pre @ [d])" using Cons.prems by simp
      show "Suc i = length (pre @ [d])" using Cons.prems by simp
      show "d = (pre @ [d]) ! i" using Cons.prems by simp
      show "\<forall>j<length (pre @ [d]). d \<le> (pre @ [d]) ! j"
        using Cons.prems True by (auto simp: nth_append less_Suc_eq dest: order.strict_trans2 less_imp_le)
      show "\<forall>j<i. d < (pre @ [d]) ! j"
        using Cons.prems True by (auto simp: nth_append dest: order.strict_trans2)
    qed
    with True show ?thesis by simp
  next
    case False
    have "argmin_scan b m (Suc i) ds < length ((pre @ [d]) @ ds) \<and>
         (\<forall>j<length ((pre @ [d]) @ ds). ((pre @ [d]) @ ds) ! argmin_scan b m (Suc i) ds \<le> ((pre @ [d]) @ ds) ! j) \<and>
         (\<forall>j<argmin_scan b m (Suc i) ds. ((pre @ [d]) @ ds) ! argmin_scan b m (Suc i) ds < ((pre @ [d]) @ ds) ! j)"
    proof (rule Cons.IH)
      show "b < length (pre @ [d])" using Cons.prems by simp
      show "Suc i = length (pre @ [d])" using Cons.prems by simp
      show "m = (pre @ [d]) ! b" using Cons.prems by (simp add: nth_append)
      show "\<forall>j<length (pre @ [d]). m \<le> (pre @ [d]) ! j"
        using Cons.prems False by (auto simp: nth_append less_Suc_eq)
      show "\<forall>j<b. m < (pre @ [d]) ! j"
        using Cons.prems by (auto simp: nth_append)
    qed
    with False show ?thesis by simp
  qed
qed

lemma argmin_spec:
  assumes "ds \<noteq> []"
  shows "\<exists>a. argmin ds = Inr a \<and> a < length ds \<and> (\<forall>j<length ds. ds ! a \<le> ds ! j) \<and>
             (\<forall>j<a. ds ! a < ds ! j)"
proof -
  from assms obtain d ds' where ds: "ds = d # ds'" by (cases ds) auto
  have "argmin_scan 0 d 1 ds' < length ([d] @ ds') \<and>
         (\<forall>j<length ([d] @ ds'). ([d] @ ds') ! argmin_scan 0 d 1 ds' \<le> ([d] @ ds') ! j) \<and>
         (\<forall>j<argmin_scan 0 d 1 ds'. ([d] @ ds') ! argmin_scan 0 d 1 ds' < ([d] @ ds') ! j)"
    by (rule argmin_scan_spec) simp_all
  then show ?thesis by (simp add: ds argmin_def)
qed

subsection \<open>The loop of get_cluster_summaries\<close>

lemma summarize_cluster_None:
  "summarize_cluster nd st rs c = Inr None \<longleftrightarrow> filter (\<lambda>it. cluster_id it = c) rs = []"
  by (auto simp: summarize_cluster_def Let_def split: option.splits sum.splits)

lemma summarize_cluster_Some:
  assumes "summarize_cluster nd st rs c = Inr (Some s)"
  shows "headlines s = map headline (filter (\<lambda>it. cluster_id it = c) rs) \<and>
         size_g s = length (headlines s) \<and> headlines s \<noteq> []"
  using assms
  by (auto simp: summarize_cluster_def Let_def split: option.splits sum.splits if_splits)

lemma summaries_loop_spec:
  assumes "summaries_loop nd st rs cs acc = Inr out"
  shows "\<exists>new. out = acc @ new \<and>
           map fst new = filter (\<lambda>c. \<exists>it \<in> set rs. cluster_id it = c) cs \<and>
           (\<forall>(c, s) \<in> set new. summarize_cluster nd st rs c = Inr (Some s))"
  using assms
proof (induction cs arbitrary: acc)
  case Nil
  then show ?case by simp
next
  case (Cons c cs)
  show ?case
  proof (cases "summarize_cluster nd st rs c")
    case (Inl e)
    with Cons.prems show ?thesis by simp
  next
    case (Inr r)
    show ?thesis
    proof (cases r)
      case None
      with Inr have emp: "filter (\<lambda>it. cluster_id it = c) rs = []"
        by (simp add: summarize_cluster_None)
      then have nomem: "\<not> (\<exists>it \<in> set rs. cluster_id it = c)"
        by (simp add: filter_empty_conv)
      from Cons.prems Inr None have "summaries_loop nd st rs cs acc = Inr out" by simp
      from Cons.IH [OF this] nomem show ?thesis by simp
    next
      case (Some s)
      with Inr have "headlines s \<noteq> []" "headlines s = map headline (filter (\<lambda>it. cluster_id it = c) rs)"
        using summarize_cluster_Some by blast+
      then have mem: "\<exists>it \<in> set rs. cluster_id it = c"
        by (auto simp: filter_empty_conv)
      from Cons.prems Inr Some have "summaries_loop nd st rs cs (acc @ [(c, s)]) = Inr out" by simp
      from Cons.IH [OF this] obtain new where
        new: "out = (acc @ [(c, s)]) @ new"
          "map fst new = filter (\<lambda>c. \<exists>it \<in> set rs. cluster_id it = c) cs"
          "\<forall>(c, s) \<in> set new. summarize_cluster nd st rs c = Inr (Some s)"
        by blast
      show ?thesis
      proof (intro exI conjI)
        show "out = acc @ ((c, s) # new)" using new(1) by simp
        show "map fst ((c, s) # new) = filter (\<lambda>c. \<exists>it \<in> set rs. cluster_id it = c) (c # cs)"
          using new(2) mem by simp
        show "\<forall>(c, s) \<in> set ((c, s) # new). summarize_cluster nd st rs c = Inr (Some s)"
          using new(3) Inr Some by simp
      qed
    qed
  qed
qed

lemma get_cluster_summaries_spec:
  assumes "get_cluster_summaries nd st rs = Inr tbl"
  shows "map fst tbl = filter (\<lambda>c. \<exists>it \<in> set rs. cluster_id it = c) [0..<n_clusters st]"
    and "\<forall>(c, s) \<in> set tbl. summarize_cluster nd st rs c = Inr (Some s)"
  using summaries_loop_spec [of nd st rs "[0..<n_clusters st]" "[]" tbl] assms
  by (auto simp: get_cluster_summaries_def)

subsection \<open>The representative of a group\<close>

lemma aligned_member_indices:
  assumes "index_aligned rs"
  shows "map embedding_index (filter P rs) = filter (\<lambda>i. P (rs ! i)) [0..<length rs]"
proof -
  have idx: "\<And>i. i < length rs \<Longrightarrow> embedding_index (rs ! i) = i"
  proof -
    fix i assume i: "i < length rs"
    have "map embedding_index rs ! i = [0..<length rs] ! i"
      using assms by (simp add: index_aligned_def)
    with i show "embedding_index (rs ! i) = i" by simp
  qed
  have "filter P rs = filter P (map (\<lambda>i. rs ! i) [0..<length rs])"
    by (simp add: map_nth)
  also have "\<dots> = map (\<lambda>i. rs ! i) (filter (\<lambda>i. P (rs ! i)) [0..<length rs])"
    by (simp add: filter_map comp_def)
  finally have "map embedding_index (filter P rs) =
      map (\<lambda>i. embedding_index (rs ! i)) (filter (\<lambda>i. P (rs ! i)) [0..<length rs])"
    by (simp add: comp_def)
  also have "\<dots> = map (\<lambda>i. i) (filter (\<lambda>i. P (rs ! i)) [0..<length rs])"
    by (rule map_cong) (auto simp: idx)
  finally show ?thesis by simp
qed

lemma strict_sorted_nth_less:
  assumes "sorted_wrt (<) (xs :: nat list)" "a < length xs" "b < length xs" "xs ! b < xs ! a"
  shows "b < a"
proof (rule ccontr)
  assume "\<not> b < a"
  then have "a = b \<or> a < b" by auto
  then show False
  proof
    assume "a = b" with assms(4) show False by simp
  next
    assume "a < b"
    with assms(1,3) have "xs ! a < xs ! b" by (simp add: sorted_wrt_nth_less)
    with assms(4) show False by simp
  qed
qed

lemma summarize_cluster_representative:
  assumes al: "index_aligned rs"
    and sm: "summarize_cluster nd st rs c = Inr (Some s)"
  shows "\<exists>E C j. embeddings st = Some E \<and> cluster_centers (kmeans st) = Some C \<and>
           j < length rs \<and> cluster_id (rs ! j) = c \<and>
           representative_headline s = headline (rs ! j) \<and>
           (\<forall>i<length rs. cluster_id (rs ! i) = c \<longrightarrow> nd (E ! j) (C ! c) \<le> nd (E ! i) (C ! c)) \<and>
           (\<forall>i<j. cluster_id (rs ! i) = c \<longrightarrow> nd (E ! j) (C ! c) < nd (E ! i) (C ! c))"
proof -
  define idxs where "idxs = filter (\<lambda>i. cluster_id (rs ! i) = c) [0..<length rs]"
  have idxs: "map embedding_index (filter (\<lambda>it. cluster_id it = c) rs) = idxs"
    unfolding idxs_def using al by (rule aligned_member_indices)
  from sm obtain E C a where
    E: "embeddings st = Some E" and C: "cluster_centers (kmeans st) = Some C"
    and a: "argmin (map (\<lambda>e. nd e (C ! c)) (map (\<lambda>i. E ! i) idxs)) = Inr a"
    and rep: "representative_headline s = headline (rs ! (idxs ! a))"
    and ne: "filter (\<lambda>it. cluster_id it = c) rs \<noteq> []"
    by (auto simp: summarize_cluster_def Let_def idxs split: option.splits sum.splits if_splits)
  define ds where "ds = map (\<lambda>i. nd (E ! i) (C ! c)) idxs"
  have ds_eq: "map (\<lambda>e. nd e (C ! c)) (map (\<lambda>i. E ! i) idxs) = ds"
    by (simp add: ds_def comp_def)
  have "idxs \<noteq> []"
  proof
    assume "idxs = []"
    with idxs have "map embedding_index (filter (\<lambda>it. cluster_id it = c) rs) = []" by simp
    with ne show False by simp
  qed
  then have "ds \<noteq> []" by (simp add: ds_def)
  from argmin_spec [OF this] a ds_eq have
    a_lt: "a < length ds" and a_min: "\<forall>k<length ds. ds ! a \<le> ds ! k"
    and a_first: "\<forall>k<a. ds ! a < ds ! k"
    by auto
  have len: "length ds = length idxs" by (simp add: ds_def)
  have ds_nth: "\<And>k. k < length idxs \<Longrightarrow> ds ! k = nd (E ! (idxs ! k)) (C ! c)"
    by (simp add: ds_def)
  have sorted: "sorted_wrt (<) idxs"
    unfolding idxs_def by (rule sorted_wrt_filter) (simp add: sorted_wrt_upt)
  define j where "j = idxs ! a"
  have "j \<in> set idxs" using a_lt len by (simp add: j_def)
  then have j_lt: "j < length rs" and j_c: "cluster_id (rs ! j) = c"
    by (auto simp: idxs_def)
  have min: "\<forall>i<length rs. cluster_id (rs ! i) = c \<longrightarrow> nd (E ! j) (C ! c) \<le> nd (E ! i) (C ! c)"
  proof (intro allI impI)
    fix i assume "i < length rs" "cluster_id (rs ! i) = c"
    then have "i \<in> set idxs" by (simp add: idxs_def)
    then obtain k where k: "k < length idxs" "idxs ! k = i" by (auto simp: in_set_conv_nth)
    with a_min len have "ds ! a \<le> ds ! k" by simp
    with k a_lt len show "nd (E ! j) (C ! c) \<le> nd (E ! i) (C ! c)"
      by (simp add: ds_nth j_def)
  qed
  have first: "\<forall>i<j. cluster_id (rs ! i) = c \<longrightarrow> nd (E ! j) (C ! c) < nd (E ! i) (C ! c)"
  proof (intro allI impI)
    fix i assume i: "i < j" "cluster_id (rs ! i) = c"
    with j_lt have "i \<in> set idxs" by (simp add: idxs_def)
    then obtain k where k: "k < length idxs" "idxs ! k = i" by (auto simp: in_set_conv_nth)
    have "k < a"
      using sorted a_lt k i(1) len by (intro strict_sorted_nth_less [of idxs a k]) (simp_all add: j_def)
    with a_first have "ds ! a < ds ! k" by simp
    with k a_lt len show "nd (E ! j) (C ! c) < nd (E ! i) (C ! c)"
      by (simp add: ds_nth j_def)
  qed
  from E C j_lt j_c rep min first show ?thesis
    unfolding j_def [symmetric] by blast
qed

subsection \<open>When the calls return\<close>

lemma summarize_cluster_succeeds:
  assumes wf: "summarizable st rs" and c: "c < n_clusters st"
  shows "\<exists>r. summarize_cluster nd st rs c = Inr r"
proof (cases "filter (\<lambda>it. cluster_id it = c) rs = []")
  case True
  then show ?thesis by (simp add: summarize_cluster_def)
next
  case False
  define idxs where "idxs = filter (\<lambda>i. cluster_id (rs ! i) = c) [0..<length rs]"
  from wf have al: "index_aligned rs" by (simp add: summarizable_def)
  have idxs: "map embedding_index (filter (\<lambda>it. cluster_id it = c) rs) = idxs"
    unfolding idxs_def using al by (rule aligned_member_indices)
  from wf obtain E where E: "embeddings st = Some E" "length rs \<le> length E"
    by (auto simp: summarizable_def split: option.splits)
  from wf obtain C where C: "cluster_centers (kmeans st) = Some C" "n_clusters st \<le> length C"
    by (auto simp: summarizable_def split: option.splits)
  have in_rs: "\<And>i. i \<in> set idxs \<Longrightarrow> i < length rs" by (simp add: idxs_def)
  have ne: "idxs \<noteq> []"
  proof
    assume "idxs = []"
    with idxs have "map embedding_index (filter (\<lambda>it. cluster_id it = c) rs) = []" by simp
    with False show False by simp
  qed
  define ds where "ds = map (\<lambda>i. nd (E ! i) (C ! c)) idxs"
  have "ds \<noteq> []" using ne by (simp add: ds_def)
  from argmin_spec [OF this] obtain a where a: "argmin ds = Inr a" "a < length ds" by blast
  have "idxs ! a \<in> set idxs" using a(2) by (simp add: ds_def)
  then have rep: "idxs ! a < length rs" by (rule in_rs)
  have noerr: "\<not> (\<exists>i \<in> set idxs. length E \<le> i)"
    using in_rs E(2) by fastforce
  have cC: "\<not> length C \<le> c" using c C(2) by simp
  show ?thesis
    using False E(1) C(1) noerr cC a(1) rep
    by (simp add: summarize_cluster_def Let_def idxs comp_def ds_def [symmetric])
qed

lemma summaries_loop_succeeds:
  assumes "\<forall>c \<in> set cs. \<exists>r. summarize_cluster nd st rs c = Inr r"
  shows "\<exists>out. summaries_loop nd st rs cs acc = Inr out"
  using assms
proof (induction cs arbitrary: acc)
  case Nil
  then show ?case by simp
next
  case (Cons c cs)
  then obtain r where r: "summarize_cluster nd st rs c = Inr r" by auto
  from Cons have rest: "\<And>acc'. \<exists>out. summaries_loop nd st rs cs acc' = Inr out" by simp
  show ?case
  proof (cases r)
    case None
    with r rest [of acc] show ?thesis by simp
  next
    case (Some s)
    with r rest [of "acc @ [(c, s)]"] show ?thesis by simp
  qed
qed

lemma get_cluster_summaries_succeeds:
  assumes "summarizable st rs"
  shows "\<exists>tbl. get_cluster_summaries nd st rs = Inr tbl"
  unfolding get_cluster_summaries_def
  by (rule summaries_loop_succeeds) (auto intro: summarize_cluster_succeeds [OF assms])

lemma pair_results_length: "length (pair_results hs labels) = min (length hs) (length labels)"
  by (simp add: pair_results_def)

lemma pair_results_nth:
  assumes "i < length (pair_results hs labels)"
  shows "pair_results hs labels ! i =
           \<lparr>headline = hs ! i, cluster_id = labels ! i, embedding_index = i\<rparr>"
  using assms by (simp add: pair_results_def nth_enumerate_eq)

lemma pair_results_aligned: "index_aligned (pair_results hs labels)"
  unfolding index_aligned_def
  by (rule nth_equalityI) (simp_all add: pair_results_nth)

lemma cluster_headlines_cases:
  "\<exists>E. (case embeddings st of None \<Rightarrow> E = enc (embedding_model st) hs | Some E' \<Rightarrow> E = E') \<and>
        (case fit_predict alg g (kmeans st) E of
           Inl e \<Rightarrow> cluster_headlines enc alg g st hs = (Inl e, st\<lparr>embeddings := Some E\<rparr>)
         | Inr (labels, km) \<Rightarrow>
             cluster_headlines enc alg g st hs =
               (Inr (pair_results hs labels),
                st\<lparr>embeddings := Some E, kmeans := km, cluster_labels := Some labels\<rparr>))"
  by (cases "embeddings st")
     (auto simp: cluster_headlines_def create_embeddings_def Let_def split: sum.splits prod.splits)

subsection \<open>The calls of cluster_headlines\<close>

lemma round_robin_contract: "sklearn_contract round_robin_alg"
  unfolding sklearn_contract_def round_robin_alg_def by auto

lemma cluster_headlines_eq:
  "cluster_headlines enc alg g st hs =
     (case fit_predict alg g (kmeans st) (vectors_clustered enc st hs) of
        Inl e \<Rightarrow> (Inl e, st\<lparr>embeddings := Some (vectors_clustered enc st hs)\<rparr>)
      | Inr (labels, km) \<Rightarrow>
          (Inr (pair_results hs labels),
           st\<lparr>embeddings := Some (vectors_clustered enc st hs), kmeans := km,
              cluster_labels := Some labels\<rparr>))"
  by (cases "embeddings st")
     (auto simp: cluster_headlines_def create_embeddings_def vectors_clustered_def Let_def
           split: sum.splits prod.splits)

lemma fit_predict_seeded:
  assumes "random_state km = Some s"
  shows "fit_predict alg g1 km X = fit_predict alg g2 km X"
  using assms by (simp add: fit_predict_def)

subsection \<open>The worked example\<close>

lemma example_fitted_eq:
  "example_fitted =
     \<lparr>model_name = ''m'', n_clusters = 2, embedding_model = ''m'',
      kmeans = \<lparr>km_n_clusters = 2, random_state = Some 42, n_init = 10,
                cluster_centers = Some [1, 3]\<rparr>,
      embeddings = Some [1, 3, 5, 3], cluster_labels = Some [0, 1, 0, 1]\<rparr>"
  by (simp add: example_fitted_def example_headlines_def cluster_headlines_eq vectors_clustered_def
        init_def length_enc_def fit_predict_def round_robin_alg_def upt_rec)

lemma example_results_eq:
  "fst (cluster_headlines length_enc round_robin_alg 0 (init ''m'' 2) example_headlines) =
     Inr example_results"
  by (simp add: example_results_def example_headlines_def cluster_headlines_eq vectors_clustered_def
        init_def length_enc_def fit_predict_def round_robin_alg_def upt_rec)

lemma example_table_eq:
  "get_cluster_summaries dist1 example_fitted example_results = Inr example_table"
  by code_simp

lemma example_summarizable: "summarizable example_fitted example_results"
  by code_simp

subsection \<open>The first call on an instance, and the later ones\<close>

text \<open>
  \<^verbatim>\<open>cluster_headlines\<close> fails exactly when the fit does, which depends on the rows handed
  to it; on an instance without embeddings these are the encodings of the headlines of
  the call, and then the results, the labels and the representatives are those of these
  headlines.
\<close>

lemma cluster_headlines_rows_short:
  assumes "sklearn_contract alg"
    and "vectors_clustered enc st hs = [] \<or>
         length (vectors_clustered enc st hs) < km_n_clusters (kmeans st)"
  shows "cluster_headlines enc alg g st hs =
           (Inl ValueError, st\<lparr>embeddings := Some (vectors_clustered enc st hs)\<rparr>)"
proof -
  let ?X = "vectors_clustered enc st hs"
  from assms have "fit_predict alg g (kmeans st) ?X = Inl ValueError"
    unfolding sklearn_contract_def fit_predict_def
    by (metis (no_types, lifting) old.sum.simps(5))
  then show ?thesis by (simp add: cluster_headlines_eq)
qed

lemma first_call_insufficient:
  assumes "sklearn_contract alg"
    and "embeddings st = None"
    and "length (enc (embedding_model st) hs) = length hs"
    and "hs = [] \<or> length hs < km_n_clusters (kmeans st)"
  shows "cluster_headlines enc alg g st hs =
           (Inl ValueError, st\<lparr>embeddings := Some (enc (embedding_model st) hs)\<rparr>)"
proof -
  have v: "vectors_clustered enc st hs = enc (embedding_model st) hs"
    using assms(2) by (simp add: vectors_clustered_def)
  have "vectors_clustered enc st hs = [] \<or>
         length (vectors_clustered enc st hs) < km_n_clusters (kmeans st)"
    using assms(3,4) unfolding v by auto
  from cluster_headlines_rows_short [OF assms(1) this] show ?thesis by (simp add: v)
qed

lemma cluster_headlines_covers:
  assumes "sklearn_contract alg"
    and "length hs \<le> length (vectors_clustered enc st hs)"
    and "0 < km_n_clusters (kmeans st)"
    and "km_n_clusters (kmeans st) \<le> length (vectors_clustered enc st hs)"
  shows "\<exists>labels km. fit_predict alg g (kmeans st) (vectors_clustered enc st hs) = Inr (labels, km) \<and>
           fst (cluster_headlines enc alg g st hs) = Inr (pair_results hs labels) \<and>
           length (pair_results hs labels) = length hs \<and>
           (\<forall>i<length hs. pair_results hs labels ! i =
                \<lparr>headline = hs ! i, cluster_id = labels ! i, embedding_index = i\<rparr> \<and>
                labels ! i < km_n_clusters (kmeans st))"
proof -
  let ?X = "vectors_clustered enc st hs"
  let ?k = "km_n_clusters (kmeans st)"
  let ?seed = "case random_state (kmeans st) of Some s \<Rightarrow> s | None \<Rightarrow> g"
  from assms have "0 < ?k \<and> ?k \<le> length ?X" by simp
  with assms(1) obtain labels centers where
    fit: "alg ?seed (n_init (kmeans st)) ?k ?X = Inr (labels, centers)"
    and len: "length labels = length ?X" and lt: "\<forall>l \<in> set labels. l < ?k"
    unfolding sklearn_contract_def by blast
  have fp: "fit_predict alg g (kmeans st) ?X = Inr (labels, (kmeans st)\<lparr>cluster_centers := Some centers\<rparr>)"
    by (simp add: fit_predict_def fit)
  have res: "fst (cluster_headlines enc alg g st hs) = Inr (pair_results hs labels)"
    by (simp add: cluster_headlines_eq fp)
  have l: "length (pair_results hs labels) = length hs"
    using len assms(2) by (simp add: pair_results_length)
  have "\<forall>i<length hs. pair_results hs labels ! i =
                \<lparr>headline = hs ! i, cluster_id = labels ! i, embedding_index = i\<rparr> \<and>
                labels ! i < ?k"
  proof (intro allI impI)
    fix i assume i: "i < length hs"
    then have "labels ! i \<in> set labels" using len assms(2) by simp
    with lt have "labels ! i < ?k" by blast
    with i l show "pair_results hs labels ! i =
                \<lparr>headline = hs ! i, cluster_id = labels ! i, embedding_index = i\<rparr> \<and>
                labels ! i < ?k"
      by (simp add: pair_results_nth)
  qed
  with fp res l show ?thesis by blast
qed

lemma first_call_coverage:
  assumes "sklearn_contract alg"
    and "embeddings st = None"
    and "length (enc (embedding_model st) hs) = length hs"
    and "0 < km_n_clusters (kmeans st)" and "km_n_clusters (kmeans st) \<le> length hs"
  shows "\<exists>labels km. fit_predict alg g (kmeans st) (enc (embedding_model st) hs) = Inr (labels, km) \<and>
           fst (cluster_headlines enc alg g st hs) = Inr (pair_results hs labels) \<and>
           length (pair_results hs labels) = length hs \<and>
           (\<forall>i<length hs. pair_results hs labels ! i =
                \<lparr>headline = hs ! i, cluster_id = labels ! i, embedding_index = i\<rparr> \<and>
                labels ! i < km_n_clusters (kmeans st))"
proof -
  have v: "vectors_clustered enc st hs = enc (embedding_model st) hs"
    using assms(2) by (simp add: vectors_clustered_def)
  have a: "length hs \<le> length (vectors_clustered enc st hs)" using assms(3) by (simp add: v)
  have b: "km_n_clusters (kmeans st) \<le> length (vectors_clustered enc st hs)"
    using assms(3,5) by (simp add: v)
  from cluster_headlines_covers [OF assms(1) a assms(4) b, of g] show ?thesis by (simp add: v)
qed

lemma representative_nearest_stored_row:
  assumes "index_aligned rs"
    and "get_cluster_summaries nd st rs = Inr tbl"
    and "(c, s) \<in> set tbl"
  shows "\<exists>E C j. embeddings st = Some E \<and> cluster_centers (kmeans st) = Some C \<and>
           j < length rs \<and> cluster_id (rs ! j) = c \<and>
           representative_headline s = headline (rs ! j) \<and>
           (\<forall>i<length rs. cluster_id (rs ! i) = c \<longrightarrow> nd (E ! j) (C ! c) \<le> nd (E ! i) (C ! c)) \<and>
           (\<forall>i<j. cluster_id (rs ! i) = c \<longrightarrow> nd (E ! j) (C ! c) < nd (E ! i) (C ! c)) \<and>
           representative_headline s \<in> set (headlines s)"
proof -
  from get_cluster_summaries_spec(2) [OF assms(2)] assms(3)
  have sm: "summarize_cluster nd st rs c = Inr (Some s)" by auto
  from summarize_cluster_representative [OF assms(1) sm] obtain E C j where
    f: "embeddings st = Some E" "cluster_centers (kmeans st) = Some C"
      "j < length rs" "cluster_id (rs ! j) = c"
      "representative_headline s = headline (rs ! j)"
      "\<forall>i<length rs. cluster_id (rs ! i) = c \<longrightarrow> nd (E ! j) (C ! c) \<le> nd (E ! i) (C ! c)"
      "\<forall>i<j. cluster_id (rs ! i) = c \<longrightarrow> nd (E ! j) (C ! c) < nd (E ! i) (C ! c)"
    by blast
  from summarize_cluster_Some [OF sm]
  have hl: "headlines s = map headline (filter (\<lambda>it. cluster_id it = c) rs)" by simp
  have "rs ! j \<in> set (filter (\<lambda>it. cluster_id it = c) rs)"
    using f(3,4) by simp
  then have "headline (rs ! j) \<in> set (headlines s)"
    unfolding hl by (simp only: set_map) (rule imageI)
  with f show ?thesis by metis
qed

lemma cluster_pipeline_Inr:
  assumes "cluster_pipeline enc alg nd g st hs = (Inr (rs, tbl), st')"
  shows "\<exists>labels km. fit_predict alg g (kmeans st) (vectors_clustered enc st hs) = Inr (labels, km) \<and>
           rs = pair_results hs labels \<and>
           st' = st\<lparr>embeddings := Some (vectors_clustered enc st hs), kmeans := km,
                    cluster_labels := Some labels\<rparr> \<and>
           get_cluster_summaries nd st' rs = Inr tbl"
  using assms
  by (auto simp: cluster_pipeline_def cluster_headlines_eq split: sum.splits prod.splits)

lemma first_call_representative:
  assumes "embeddings st = None"
    and "cluster_pipeline enc alg nd g st hs = (Inr (rs, tbl), st')"
    and "(c, s) \<in> set tbl"
  shows "\<exists>C j. cluster_centers (kmeans st') = Some C \<and>
           j < length rs \<and> j < length hs \<and> cluster_id (rs ! j) = c \<and>
           representative_headline s = hs ! j \<and>
           (\<forall>i<length rs. cluster_id (rs ! i) = c \<longrightarrow>
               nd (enc (embedding_model st) hs ! j) (C ! c) \<le> nd (enc (embedding_model st) hs ! i) (C ! c)) \<and>
           (\<forall>i<j. cluster_id (rs ! i) = c \<longrightarrow>
               nd (enc (embedding_model st) hs ! j) (C ! c) < nd (enc (embedding_model st) hs ! i) (C ! c)) \<and>
           representative_headline s \<in> set (headlines s)"
proof -
  have v: "vectors_clustered enc st hs = enc (embedding_model st) hs"
    using assms(1) by (simp add: vectors_clustered_def)
  from cluster_pipeline_Inr [OF assms(2)] obtain labels km where
    p: "rs = pair_results hs labels"
       "st' = st\<lparr>embeddings := Some (enc (embedding_model st) hs), kmeans := km,
                    cluster_labels := Some labels\<rparr>"
       "get_cluster_summaries nd st' rs = Inr tbl"
    unfolding v by blast
  have al: "index_aligned rs" unfolding p(1) by (rule pair_results_aligned)
  from representative_nearest_stored_row [OF al p(3) assms(3)] obtain E C j where
    f: "embeddings st' = Some E" "cluster_centers (kmeans st') = Some C"
      "j < length rs" "cluster_id (rs ! j) = c"
      "representative_headline s = headline (rs ! j)"
      "\<forall>i<length rs. cluster_id (rs ! i) = c \<longrightarrow> nd (E ! j) (C ! c) \<le> nd (E ! i) (C ! c)"
      "\<forall>i<j. cluster_id (rs ! i) = c \<longrightarrow> nd (E ! j) (C ! c) < nd (E ! i) (C ! c)"
      "representative_headline s \<in> set (headlines s)"
    by blast
  from f(1) p(2) have E: "E = enc (embedding_model st) hs" by simp
  from f(3) have jh: "j < length hs" by (simp add: p(1) pair_results_length)
  from f(3) have "headline (rs ! j) = hs ! j" by (simp add: p(1) pair_results_nth)
  with f jh show ?thesis unfolding E by metis
qed

section \<open>Properties of persistence and of the summarizer\<close>

subsection \<open>Loading\<close>






lemma of_py_to_py: "of_py (to_py st) = Some st"
  by (cases "embeddings st"; cases "cluster_labels st") (simp_all add: of_py_def to_py_def)

lemma load_model_missing_key_example:
  "load_model (empty_fs\<lparr>files := (files empty_fs)(model_path None \<mapsto>
       Pickle (PDict [(''kmeans'', PKMeans (kmeans (init ''other'' 5)))]))\<rparr>)
     (to_py example_fitted) None =
     (Inl KeyError, (to_py example_fitted)\<lparr>py_kmeans := PKMeans (kmeans (init ''other'' 5))\<rparr>)"
  by (simp add: load_model_def Let_def)

subsection \<open>The fallback branches\<close>

lemma generate_summary_mock:
  assumes "use_mock s"
  shows "generate_summary env (s, w) hs cid =
           (make_result cid (mock_summary_text (set_order env) hs) hs (clock env (tick w)),
            s, w\<lparr>tick := tick w + 1\<rparr>)"
  using assms by (simp add: generate_summary.simps)

lemma generate_executive_summary_mock:
  assumes "use_mock s"
  shows "generate_executive_summary env (s, w) all_summaries =
           (mock_executive_summary all_summaries, s, w)"
  using assms by (simp add: generate_executive_summary.simps)

lemma analyze_sentiment_mock:
  assumes "use_mock s"
  shows "analyze_sentiment env (s, w) hs = (Counts (mock_sentiment hs), s, w)"
  using assms by (simp add: analyze_sentiment.simps)

lemma generate_all_loop_mock:
  assumes "use_mock (fst sw)"
  shows "use_mock (fst (snd (generate_all_loop env sw tbl acc)))"
  using assms
proof (induction tbl arbitrary: sw acc)
  case Nil
  then show ?case by simp
next
  case (Cons p tbl)
  obtain cid g where p: "p = (cid, g)" by (cases p)
  obtain s w where sw: "sw = (s, w)" by (cases sw)
  from Cons.prems sw have m: "use_mock s" by simp
  have "use_mock (fst (snd (generate_all_loop env (s, w\<lparr>tick := tick w + 1\<rparr>) tbl
      (acc @ [make_result cid (mock_summary_text (set_order env) (headlines g)) (headlines g)
                (clock env (tick w))]))))"
    by (rule Cons.IH) (simp add: m)
  then show ?case by (simp add: p sw generate_summary_mock [OF m])
qed

lemma do_call_mock:
  assumes "use_mock (fst sw)"
  shows "use_mock (fst (do_call env sw c))"
proof -
  obtain s w where sw: "sw = (s, w)" by (cases sw)
  from assms sw have m: "use_mock s" by simp
  show ?thesis
  proof (cases c)
    case (GenerateAllSummaries tbl)
    then show ?thesis
      using generate_all_loop_mock [OF assms, of env tbl "[]"]
      by (simp add: generate_all_summaries_def)
  qed (simp_all add: sw m generate_summary_mock generate_executive_summary_mock
         analyze_sentiment_mock save_summaries_def load_summaries_def)
qed

lemma do_calls_mock:
  assumes "use_mock (fst sw)"
  shows "use_mock (fst (do_calls env sw calls))"
  using assms unfolding do_calls_def
  by (induction calls arbitrary: sw) (simp_all add: do_call_mock)

section \<open>The claims about the clusterer\<close>

text \<open>
  Claim C1: a call with no text, or with fewer texts than groups, fails. The code does so
  on the first call on an instance (\<open>first_call_insufficient\<close>), but not on a later one: there
  \<^verbatim>\<open>cluster_headlines\<close> fits the embeddings kept from the first call. After a call with two
  headlines and two groups, a call with one text returns one result and a call with no
  text returns the empty list, where the same calls on a new instance raise.
\<close>

theorem reused_instance_too_few_texts:
  "fst (cluster_headlines length_enc round_robin_alg 0
          (snd (cluster_headlines length_enc round_robin_alg 0 (init ''m'' 2) [''a'', ''bcd'']))
          [''x'']) =
     Inr [\<lparr>headline = ''x'', cluster_id = 0, embedding_index = 0\<rparr>] \<and>
   fst (cluster_headlines length_enc round_robin_alg 0
          (snd (cluster_headlines length_enc round_robin_alg 0 (init ''m'' 2) [''a'', ''bcd'']))
          []) = Inr [] \<and>
   fst (cluster_headlines length_enc round_robin_alg 0 (init ''m'' 2) [''x'']) = Inl ValueError \<and>
   fst (cluster_headlines length_enc round_robin_alg 0 (init ''m'' 2) []) = Inl ValueError"
  by (simp add: cluster_headlines_eq vectors_clustered_def init_def length_enc_def
        fit_predict_def round_robin_alg_def pair_results_def enumerate_eq_zip upt_rec)

text \<open>
  Claim C2: the representative of a group is the member text whose embedding is nearest to
  the centroid of the group, the first of them on a tie. On the first call on an instance
  the code selects it (\<open>first_call_representative\<close>), and on every call the member whose
  stored row is nearest (\<open>representative_nearest_stored_row\<close>); on a later call the stored
  rows are those of the first batch. After the run on the example headlines, a run on
  four other headlines, of encodings 5, 7, 1 and 3, names as representative of group 0
  (centroid 1) the text of encoding 5 although a member of encoding 1 is there, and as
  representative of group 1 (centroid 3) the text of encoding 7 although a member of
  encoding 3 is there.
\<close>

theorem reused_instance_representative:
  "cluster_pipeline length_enc round_robin_alg dist1 0 example_fitted
       [''vwxyz'', ''pqrstuv'', ''b'', ''cde''] =
     (Inr ([\<lparr>headline = ''vwxyz'', cluster_id = 0, embedding_index = 0\<rparr>,
            \<lparr>headline = ''pqrstuv'', cluster_id = 1, embedding_index = 1\<rparr>,
            \<lparr>headline = ''b'', cluster_id = 0, embedding_index = 2\<rparr>,
            \<lparr>headline = ''cde'', cluster_id = 1, embedding_index = 3\<rparr>],
           [(0, \<lparr>representative_headline = ''vwxyz'', headlines = [''vwxyz'', ''b''], size_g = 2\<rparr>),
            (1, \<lparr>representative_headline = ''pqrstuv'', headlines = [''pqrstuv'', ''cde''],
                 size_g = 2\<rparr>)]),
      example_fitted) \<and>
   cluster_centers (kmeans example_fitted) = Some [1, 3] \<and>
   length_enc ''m'' [''vwxyz'', ''pqrstuv'', ''b'', ''cde''] = [5, 7, 1, 3] \<and>
   dist1 1 1 < dist1 5 1 \<and> dist1 3 3 < dist1 7 3"
  by code_simp

text \<open>
  Claim C3. Whenever \<^verbatim>\<open>get_cluster_summaries\<close> returns, the keys of its result are the
  group ids below \<^verbatim>\<open>n_clusters\<close> that have a member, each once and in ascending order,
  and every entry lists the headlines of its group in the order of the results, with a
  size equal to their number and at least one. It returns on every input that is
  summarizable.
\<close>

theorem group_summaries_shape:
  "(summarizable st rs \<longrightarrow> (\<exists>tbl. get_cluster_summaries nd st rs = Inr tbl)) \<and>
   (\<forall>tbl. get_cluster_summaries nd st rs = Inr tbl \<longrightarrow>
      map fst tbl = filter (\<lambda>c. \<exists>it \<in> set rs. cluster_id it = c) [0..<n_clusters st] \<and>
      (\<forall>(c, s) \<in> set tbl.
         headlines s = map headline (filter (\<lambda>it. cluster_id it = c) rs) \<and>
         size_g s = length (headlines s) \<and> 1 \<le> size_g s))"
proof (intro conjI impI allI)
  assume "summarizable st rs"
  then show "\<exists>tbl. get_cluster_summaries nd st rs = Inr tbl"
    by (rule get_cluster_summaries_succeeds)
next
  fix tbl assume "get_cluster_summaries nd st rs = Inr tbl"
  then show "map fst tbl = filter (\<lambda>c. \<exists>it \<in> set rs. cluster_id it = c) [0..<n_clusters st]"
    by (rule get_cluster_summaries_spec(1))
next
  fix tbl assume g: "get_cluster_summaries nd st rs = Inr tbl"
  show "\<forall>(c, s) \<in> set tbl.
         headlines s = map headline (filter (\<lambda>it. cluster_id it = c) rs) \<and>
         size_g s = length (headlines s) \<and> 1 \<le> size_g s"
  proof (clarify)
    fix c s assume "(c, s) \<in> set tbl"
    with get_cluster_summaries_spec(2) [OF g]
    have "summarize_cluster nd st rs c = Inr (Some s)" by auto
    from summarize_cluster_Some [OF this]
    show "headlines s = map headline (filter (\<lambda>it. cluster_id it = c) rs) \<and>
         size_g s = length (headlines s) \<and> 1 \<le> size_g s"
      by (cases "headlines s") auto
  qed
qed

theorem group_summaries_shape_witness:
  "summarizable example_fitted example_results \<and>
   get_cluster_summaries dist1 example_fitted example_results = Inr example_table \<and>
   map fst example_table =
     filter (\<lambda>c. \<exists>it \<in> set example_results. cluster_id it = c) [0..<n_clusters example_fitted] \<and>
   headlines \<lparr>representative_headline = ''bcd'', headlines = [''bcd'', ''xyz''], size_g = 2\<rparr> =
     map headline (filter (\<lambda>it. cluster_id it = 1) example_results) \<and>
   size_g \<lparr>representative_headline = ''bcd'', headlines = [''bcd'', ''xyz''], size_g = 2\<rparr> =
     length (headlines \<lparr>representative_headline = ''bcd'', headlines = [''bcd'', ''xyz''], size_g = 2\<rparr>) \<and>
   1 \<le> size_g \<lparr>representative_headline = ''bcd'', headlines = [''bcd'', ''xyz''], size_g = 2\<rparr>"
proof -
  let ?s = "\<lparr>representative_headline = ''bcd'', headlines = [''bcd'', ''xyz''], size_g = 2\<rparr>"
  have h1: "summarizable example_fitted example_results" by (rule example_summarizable)
  have h2: "get_cluster_summaries dist1 example_fitted example_results = Inr example_table"
    by (rule example_table_eq)
  have h3: "(1, ?s) \<in> set example_table" by (simp add: example_table_def)
  note r = group_summaries_shape [of example_fitted example_results dist1]
  from r h2 have keys: "map fst example_table =
     filter (\<lambda>c. \<exists>it \<in> set example_results. cluster_id it = c) [0..<n_clusters example_fitted]"
    by blast
  from r h2 have "\<forall>(c, s) \<in> set example_table.
         headlines s = map headline (filter (\<lambda>it. cluster_id it = c) example_results) \<and>
         size_g s = length (headlines s) \<and> 1 \<le> size_g s"
    by blast
  with h3 have entry: "headlines ?s = map headline (filter (\<lambda>it. cluster_id it = 1) example_results) \<and>
         size_g ?s = length (headlines ?s) \<and> 1 \<le> size_g ?s"
    by fast
  show ?thesis by (intro conjI h1 h2 keys conjunct1 [OF entry] conjunct1 [OF conjunct2 [OF entry]]
      conjunct2 [OF conjunct2 [OF entry]])
qed

text \<open>
  Claim C4: every item of a batch of size \<open>n \<ge> k > 0\<close> gets exactly one assignment. The
  code gives one on the first call on an instance (\<open>first_call_coverage\<close>), but a later call
  zips the labels of the first batch onto the new headlines: after a call with two
  headlines, a batch of three headlines with two groups gets two results and its third
  headline none, where the same call on a new instance gives three.
\<close>

theorem reused_instance_drops_headline:
  "fst (cluster_headlines length_enc round_robin_alg 0
          (snd (cluster_headlines length_enc round_robin_alg 0 (init ''m'' 2) [''a'', ''bcd'']))
          [''x'', ''yy'', ''zzz'']) =
     Inr [\<lparr>headline = ''x'', cluster_id = 0, embedding_index = 0\<rparr>,
          \<lparr>headline = ''yy'', cluster_id = 1, embedding_index = 1\<rparr>] \<and>
   fst (cluster_headlines length_enc round_robin_alg 0 (init ''m'' 2) [''x'', ''yy'', ''zzz'']) =
     Inr [\<lparr>headline = ''x'', cluster_id = 0, embedding_index = 0\<rparr>,
          \<lparr>headline = ''yy'', cluster_id = 1, embedding_index = 1\<rparr>,
          \<lparr>headline = ''zzz'', cluster_id = 0, embedding_index = 2\<rparr>]"
  by (simp add: cluster_headlines_eq vectors_clustered_def init_def length_enc_def
        fit_predict_def round_robin_alg_def pair_results_def enumerate_eq_zip upt_rec)

text \<open>
  Claim C5. On an estimator with an integer \<^verbatim>\<open>random_state\<close> (\<^verbatim>\<open>__init__\<close> sets 42), the
  pipeline gives the same results, summaries and final state (labels, centres, embeddings)
  whatever the state \<open>g\<close> of the global random generator is, and a second run on the
  instance the first one leaves behind, on the same texts, gives them again.
\<close>

theorem pipeline_deterministic:
  assumes "random_state (kmeans st) = Some seed"
  shows "cluster_pipeline enc alg nd g1 st hs = cluster_pipeline enc alg nd g2 st hs \<and>
         cluster_pipeline enc alg nd g2 (snd (cluster_pipeline enc alg nd g1 st hs)) hs =
           cluster_pipeline enc alg nd g1 st hs"
proof
  have ch: "cluster_headlines enc alg g1 st hs = cluster_headlines enc alg g2 st hs"
    by (simp add: cluster_headlines_eq fit_predict_seeded [OF assms, of alg g1 _ g2])
  then show "cluster_pipeline enc alg nd g1 st hs = cluster_pipeline enc alg nd g2 st hs"
    by (simp add: cluster_pipeline_def)
next
  let ?X = "vectors_clustered enc st hs"
  show "cluster_pipeline enc alg nd g2 (snd (cluster_pipeline enc alg nd g1 st hs)) hs =
           cluster_pipeline enc alg nd g1 st hs"
  proof (cases "alg seed (n_init (kmeans st)) (km_n_clusters (kmeans st)) ?X")
    case (Inl e)
    then show ?thesis
      using assms
      by (simp add: cluster_pipeline_def cluster_headlines_eq fit_predict_def vectors_clustered_def)
  next
    case (Inr r)
    obtain labels centers where r: "r = (labels, centers)" by (cases r)
    show ?thesis
      using assms Inr r
      by (simp add: cluster_pipeline_def cluster_headlines_eq fit_predict_def vectors_clustered_def
               get_cluster_summaries_def
               split: sum.splits)
  qed
qed

theorem pipeline_deterministic_witness:
  "random_state (kmeans (init ''m'' 2 :: int clusterer)) = Some 42 \<and>
   cluster_pipeline length_enc round_robin_alg dist1 0 (init ''m'' 2) example_headlines =
     cluster_pipeline length_enc round_robin_alg dist1 1 (init ''m'' 2) example_headlines \<and>
   cluster_pipeline length_enc round_robin_alg dist1 1
       (snd (cluster_pipeline length_enc round_robin_alg dist1 0 (init ''m'' 2) example_headlines))
       example_headlines =
     cluster_pipeline length_enc round_robin_alg dist1 0 (init ''m'' 2) example_headlines \<and>
   cluster_pipeline length_enc round_robin_alg dist1 0 (init ''m'' 2) example_headlines =
     (Inr (example_results, example_table), example_fitted)"
proof -
  have h: "random_state (kmeans (init ''m'' 2 :: int clusterer)) = Some 42"
    by (simp add: init_def)
  have run: "cluster_pipeline length_enc round_robin_alg dist1 0 (init ''m'' 2) example_headlines =
     (Inr (example_results, example_table), example_fitted)"
    by code_simp
  note d = pipeline_deterministic [OF h, of length_enc round_robin_alg dist1 0 example_headlines 1]
  show ?thesis by (intro conjI h run conjunct1 [OF d] conjunct2 [OF d])
qed

text \<open>
  Claim C6. On an instance whose embeddings are set, \<^verbatim>\<open>cluster_headlines\<close> leaves them as
  they are, whatever the headlines; it fits the estimator on them, and when the fit
  returns, the results pair its labels with the new headlines by position, up to the
  shorter of the two (when the fit raises, so does the call).
\<close>

theorem cluster_headlines_stale:
  assumes "embeddings st = Some E"
  shows "embeddings (snd (cluster_headlines enc alg g st hs)) = Some E \<and>
         (case fit_predict alg g (kmeans st) E of
            Inl e \<Rightarrow> fst (cluster_headlines enc alg g st hs) = Inl e
          | Inr (labels, km) \<Rightarrow>
              (\<exists>rs. fst (cluster_headlines enc alg g st hs) = Inr rs \<and>
                 cluster_labels (snd (cluster_headlines enc alg g st hs)) = Some labels \<and>
                 length rs = min (length hs) (length labels) \<and>
                 (\<forall>i<length rs. rs ! i =
                    \<lparr>headline = hs ! i, cluster_id = labels ! i, embedding_index = i\<rparr>)))"
  using assms
  by (auto simp: cluster_headlines_eq vectors_clustered_def pair_results_length pair_results_nth
           split: sum.splits)

theorem cluster_headlines_stale_witness:
  "embeddings example_fitted = Some [1, 3, 5, 3] \<and>
   embeddings (snd (cluster_headlines length_enc round_robin_alg 0 example_fitted [''x'', ''yy''])) =
     Some [1, 3, 5, 3] \<and>
   (case fit_predict round_robin_alg 0 (kmeans example_fitted) [1, 3, 5, 3] of
      Inl e \<Rightarrow> fst (cluster_headlines length_enc round_robin_alg 0 example_fitted [''x'', ''yy'']) = Inl e
    | Inr (labels, km) \<Rightarrow>
        (\<exists>rs. fst (cluster_headlines length_enc round_robin_alg 0 example_fitted [''x'', ''yy'']) = Inr rs \<and>
           cluster_labels (snd (cluster_headlines length_enc round_robin_alg 0 example_fitted [''x'', ''yy''])) =
             Some labels \<and>
           length rs = min (length [''x'', ''yy'']) (length labels) \<and>
           (\<forall>i<length rs. rs ! i =
              \<lparr>headline = [''x'', ''yy''] ! i, cluster_id = labels ! i, embedding_index = i\<rparr>)))"
proof -
  have h: "embeddings example_fitted = Some [1, 3, 5, 3]" by (simp add: example_fitted_eq)
  from cluster_headlines_stale [OF h, of length_enc round_robin_alg 0 "[''x'', ''yy'']"] h
  show ?thesis by blast
qed

section \<open>The claims about persistence\<close>

text \<open>
  Claim C7. Where the path can be written, \<^verbatim>\<open>save_model\<close> followed by \<^verbatim>\<open>load_model\<close> on
  any instance gives that instance the estimator, the embeddings, the labels, the model
  name and the number of groups of the saved one, and returns \<^verbatim>\<open>True\<close>; loaded into the
  saved instance itself it gives the same state back. The encoder of the loading instance
  is not stored and stays as it is.
\<close>

theorem save_load_roundtrip:
  assumes "writable fs (model_path filepath)"
  shows "\<exists>fs'. save_model fs (to_py st) filepath = (Inr (), fs') \<and>
           load_model fs' (to_py st') filepath =
             (Inr True,
              to_py (st'\<lparr>kmeans := kmeans st, embeddings := embeddings st,
                  cluster_labels := cluster_labels st, model_name := model_name st,
                  n_clusters := n_clusters st\<rparr>)) \<and>
           load_model fs' (to_py st) filepath = (Inr True, to_py st)"
  using assms by (simp add: save_model_def load_model_def Let_def to_py_def)

theorem save_load_roundtrip_witness:
  "writable empty_fs (model_path None) \<and>
   (\<exists>fs'. save_model empty_fs (to_py example_fitted) None = (Inr (), fs') \<and>
      load_model fs' (to_py (init ''other'' 5)) None =
        (Inr True,
         to_py ((init ''other'' 5)\<lparr>kmeans := kmeans example_fitted,
            embeddings := embeddings example_fitted,
            cluster_labels := cluster_labels example_fitted, model_name := model_name example_fitted,
            n_clusters := n_clusters example_fitted\<rparr>)) \<and>
      load_model fs' (to_py example_fitted) None = (Inr True, to_py example_fitted))"
proof -
  have h: "writable empty_fs (model_path None)" by (simp add: empty_fs_def)
  from save_load_roundtrip [OF h, of example_fitted "init ''other'' 5"] h show ?thesis by blast
qed




section \<open>The claims about the summarizer\<close>

text \<open>
  Claim C9, as amended. In fallback mode, two calls of \<^verbatim>\<open>generate_summary\<close> with the same
  headlines give the same summary text whenever sets come out in the same order in both
  (as they do within one interpreter process), whatever the instances, the answers of the
  service, the times and the cluster ids are.
\<close>

theorem fallback_summary_same_process:
  assumes "use_mock s1" and "use_mock s2" and "set_order env1 = set_order env2"
  shows "summary (fst (generate_summary env1 (s1, w1) hs cid1)) =
         summary (fst (generate_summary env2 (s2, w2) hs cid2))"
  using assms by (simp add: generate_summary_mock make_result_def)

theorem fallback_summary_same_process_witness:
  "use_mock fallback_instance \<and> use_mock (fallback_instance\<lparr>api_key := ''other key''\<rparr>) \<and>
   set_order (offline_env remdups) = set_order (online_env remdups) \<and>
   summary (fst (generate_summary (offline_env remdups) (fallback_instance, start_world)
      [''Apple and Tesla rally''] 0)) =
   summary (fst (generate_summary (online_env remdups)
      (fallback_instance\<lparr>api_key := ''other key''\<rparr>, start_world\<lparr>tick := 7\<rparr>)
      [''Apple and Tesla rally''] 5))"
proof -
  have h1: "use_mock fallback_instance" by (simp add: fallback_instance_def)
  have h2: "use_mock (fallback_instance\<lparr>api_key := ''other key''\<rparr>)"
    by (simp add: fallback_instance_def)
  have h3: "set_order (offline_env remdups) = set_order (online_env remdups)"
    by (simp add: offline_env_def online_env_def)
  note r = fallback_summary_same_process [OF h1 h2 h3, of start_world "[''Apple and Tesla rally'']" 0
      "start_world\<lparr>tick := 7\<rparr>" 5]
  show ?thesis by (intro conjI h1 h2 h3 r)
qed

text \<open>
  Claim C9 as stated makes the fallback summary a function of the headlines and the
  cluster id alone. The text lists \<^verbatim>\<open>list(set(companies))[:3]\<close> in the order of the set: with
  the two orders of the set of \<^verbatim>\<open>Apple\<close> and \<^verbatim>\<open>Tesla\<close>, the same headline gives two different
  texts.
\<close>

theorem fallback_summary_counterexample:
  "summary (fst (generate_summary (offline_env remdups) (fallback_instance, start_world)
       [''Apple and Tesla rally''] 0)) =
     ''This cluster focuses on Apple, Tesla, covering 1 headlines in the technology and financial sectors. Key themes include market developments, with significant implications for market sentiment and investor confidence.'' \<and>
   summary (fst (generate_summary (offline_env (rev \<circ> remdups)) (fallback_instance, start_world)
       [''Apple and Tesla rally''] 0)) =
     ''This cluster focuses on Tesla, Apple, covering 1 headlines in the technology and financial sectors. Key themes include market developments, with significant implications for market sentiment and investor confidence.'' \<and>
   summary (fst (generate_summary (offline_env remdups) (fallback_instance, start_world)
       [''Apple and Tesla rally''] 0)) \<noteq>
   summary (fst (generate_summary (offline_env (rev \<circ> remdups)) (fallback_instance, start_world)
       [''Apple and Tesla rally''] 0))"
  by code_simp

text \<open>
  Claim C10. From an instance with \<^verbatim>\<open>use_mock\<close> set, after any sequence of calls of the
  public methods the flag is still set, and every summary, executive summary and sentiment
  result that a further call returns is the fallback one. (The probe
  \<^verbatim>\<open>_test_api_access\<close> runs in \<^verbatim>\<open>__init__\<close> only and is not among the calls.)
\<close>

theorem use_mock_sticky:
  assumes "use_mock s"
  shows "use_mock (fst (do_calls env (s, w) calls)) \<and>
         (\<forall>hs cid. summary (fst (generate_summary env (do_calls env (s, w) calls) hs cid)) =
                     mock_summary_text (set_order env) hs) \<and>
         (\<forall>all_summaries.
             fst (generate_executive_summary env (do_calls env (s, w) calls) all_summaries) =
               mock_executive_summary all_summaries) \<and>
         (\<forall>hs. fst (analyze_sentiment env (do_calls env (s, w) calls) hs) =
                 Counts (mock_sentiment hs))"
proof -
  obtain s' w' where sw': "do_calls env (s, w) calls = (s', w')"
    by (cases "do_calls env (s, w) calls")
  have "use_mock (fst (do_calls env (s, w) calls))"
    by (rule do_calls_mock) (simp add: assms)
  with sw' have m: "use_mock s'" by simp
  show ?thesis
    by (simp add: sw' m generate_summary_mock generate_executive_summary_mock
          analyze_sentiment_mock make_result_def)
qed

theorem use_mock_sticky_witness:
  "use_mock fallback_instance \<and>
   use_mock (fst (do_calls (online_env remdups) (fallback_instance, start_world)
      [GenerateSummary [''Apple and Tesla rally''] 0, AnalyzeSentiment [''Stocks rise''],
       GenerateExecutiveSummary [], SaveSummaries [], LoadSummaries,
       GenerateAllSummaries example_table])) \<and>
   (\<forall>hs cid. summary (fst (generate_summary (online_env remdups)
        (do_calls (online_env remdups) (fallback_instance, start_world)
           [GenerateSummary [''Apple and Tesla rally''] 0, AnalyzeSentiment [''Stocks rise''],
            GenerateExecutiveSummary [], SaveSummaries [], LoadSummaries,
            GenerateAllSummaries example_table]) hs cid)) =
      mock_summary_text (set_order (online_env remdups)) hs) \<and>
   (\<forall>all_summaries. fst (generate_executive_summary (online_env remdups)
        (do_calls (online_env remdups) (fallback_instance, start_world)
           [GenerateSummary [''Apple and Tesla rally''] 0, AnalyzeSentiment [''Stocks rise''],
            GenerateExecutiveSummary [], SaveSummaries [], LoadSummaries,
            GenerateAllSummaries example_table]) all_summaries) =
      mock_executive_summary all_summaries) \<and>
   (\<forall>hs. fst (analyze_sentiment (online_env remdups)
        (do_calls (online_env remdups) (fallback_instance, start_world)
           [GenerateSummary [''Apple and Tesla rally''] 0, AnalyzeSentiment [''Stocks rise''],
            GenerateExecutiveSummary [], SaveSummaries [], LoadSummaries,
            GenerateAllSummaries example_table]) hs) =
      (Counts (mock_sentiment hs) :: unit sentiment))"
proof -
  have h: "use_mock fallback_instance" by (simp add: fallback_instance_def)
  note r = use_mock_sticky [OF h, of "online_env remdups" start_world
      "[GenerateSummary [''Apple and Tesla rally''] 0, AnalyzeSentiment [''Stocks rise''],
        GenerateExecutiveSummary [], SaveSummaries [], LoadSummaries,
        GenerateAllSummaries example_table]"]
  from h r show ?thesis by (intro conjI) blast+
qed

end
